theory Spec2Isabelle
  imports Complex_Main "HOL-Library.AList"
begin

section \<open>JavaScript numbers\<close>

text \<open>
  A JavaScript number is an IEEE 754 binary64 value. A finite value is kept as the rational
  it denotes; every arithmetic operation computes the exact rational result and rounds it to
  the nearest binary64 value, ties to even (\<open>fl\<close>). The sign of zero is not kept: the
  program never divides by a zero it computed and never prints one.
\<close>

datatype number = Fin rat | PosInf | NegInf | NaN

text \<open>
  \<open>ilog2 n\<close> is the integer part of the binary logarithm of \<open>n \<ge> 1\<close>. Integers are
  used rather than naturals so that the kernel evaluates the divisions on binary numerals.
\<close>

function ilog2 :: "int \<Rightarrow> int" where
  "ilog2 n = (if n < 2 then 0 else 1 + ilog2 (n div 2))"
  by pat_completeness auto
termination
  by (relation "measure nat") auto

declare ilog2.simps [simp del]

definition pow2 :: "int \<Rightarrow> rat" where
  "pow2 k = (if 0 \<le> k then of_int (2 ^ nat k) else 1 / of_int (2 ^ nat (- k)))"

text \<open>\<open>floor_log2 q\<close> is the integer \<open>k\<close> with \<open>2^k \<le> q < 2^(k+1)\<close>, for \<open>q > 0\<close>.\<close>

definition ceil_log2 :: "int \<Rightarrow> int" where
  "ceil_log2 n = (if n \<le> 1 then 0 else 1 + ilog2 (n - 1))"

definition floor_log2 :: "rat \<Rightarrow> int" where
  "floor_log2 q =
     (if 1 \<le> q then ilog2 \<lfloor>q\<rfloor> else - ceil_log2 \<lceil>1 / q\<rceil>)"

definition round_half_even :: "rat \<Rightarrow> int" where
  "round_half_even x =
     (if x - of_int \<lfloor>x\<rfloor> < 1 / 2 then \<lfloor>x\<rfloor>
      else if 1 / 2 < x - of_int \<lfloor>x\<rfloor> then \<lfloor>x\<rfloor> + 1
      else if even \<lfloor>x\<rfloor> then \<lfloor>x\<rfloor> else \<lfloor>x\<rfloor> + 1)"

text \<open>
  Rounding to 53 significant bits: \<open>round_at a e\<close> rounds \<open>a\<close> to a multiple of
  \<open>2^e\<close>, and the exponent of a positive \<open>a\<close> is \<open>floor_log2 a - 52\<close>, bounded below
  by the subnormal exponent \<open>-1074\<close>. A rounded value of magnitude \<open>2^1024\<close> or more
  overflows to an infinity.
\<close>

definition round_at :: "rat \<Rightarrow> int \<Rightarrow> rat" where
  "round_at a e = of_int (round_half_even (a / pow2 e)) * pow2 e"

definition round53 :: "rat \<Rightarrow> rat" where
  "round53 q =
     (if q = 0 then 0
      else if 0 < q then round_at q (max (floor_log2 q - 52) (- 1074))
      else - round_at (- q) (max (floor_log2 (- q) - 52) (- 1074)))"

definition overflow :: "rat \<Rightarrow> number" where
  "overflow r =
     (if r = 0 then Fin 0
      else if 0 < r then (if 1024 \<le> floor_log2 r then PosInf else Fin r)
      else (if 1024 \<le> floor_log2 (- r) then NegInf else Fin r))"

definition fl :: "rat \<Rightarrow> number" where
  "fl q = overflow (round53 q)"

definition js_neg :: "number \<Rightarrow> number" where
  "js_neg x = (case x of Fin a \<Rightarrow> Fin (- a) | PosInf \<Rightarrow> NegInf | NegInf \<Rightarrow> PosInf | NaN \<Rightarrow> NaN)"

fun js_add :: "number \<Rightarrow> number \<Rightarrow> number" where
  "js_add NaN _ = NaN"
| "js_add _ NaN = NaN"
| "js_add PosInf NegInf = NaN"
| "js_add NegInf PosInf = NaN"
| "js_add PosInf _ = PosInf"
| "js_add NegInf _ = NegInf"
| "js_add _ PosInf = PosInf"
| "js_add _ NegInf = NegInf"
| "js_add (Fin a) (Fin b) = fl (a + b)"

definition js_sub :: "number \<Rightarrow> number \<Rightarrow> number" where
  "js_sub x y = js_add x (js_neg y)"

definition js_sign :: "number \<Rightarrow> int" where
  "js_sign x = (case x of Fin a \<Rightarrow> (if 0 < a then 1 else if a < 0 then - 1 else 0)
                | PosInf \<Rightarrow> 1 | NegInf \<Rightarrow> - 1 | NaN \<Rightarrow> 0)"

definition js_inf :: "int \<Rightarrow> number" where
  "js_inf s = (if 0 < s then PosInf else if s < 0 then NegInf else NaN)"

fun js_mul :: "number \<Rightarrow> number \<Rightarrow> number" where
  "js_mul NaN _ = NaN"
| "js_mul _ NaN = NaN"
| "js_mul (Fin a) (Fin b) = fl (a * b)"
| "js_mul x y = js_inf (js_sign x * js_sign y)"

fun js_div :: "number \<Rightarrow> number \<Rightarrow> number" where
  "js_div NaN _ = NaN"
| "js_div _ NaN = NaN"
| "js_div (Fin a) (Fin b) = (if b = 0 then js_inf (js_sign (Fin a)) else fl (a / b))"
| "js_div (Fin a) _ = Fin 0"
| "js_div x (Fin b) = js_inf (js_sign x * (if b < 0 then - 1 else 1))"
| "js_div _ _ = NaN"

definition js_abs :: "number \<Rightarrow> number" where
  "js_abs x = (case x of Fin a \<Rightarrow> Fin \<bar>a\<bar> | PosInf \<Rightarrow> PosInf | NegInf \<Rightarrow> PosInf | NaN \<Rightarrow> NaN)"

fun js_lt :: "number \<Rightarrow> number \<Rightarrow> bool" where
  "js_lt NaN _ = False"
| "js_lt _ NaN = False"
| "js_lt (Fin a) (Fin b) = (a < b)"
| "js_lt PosInf _ = False"
| "js_lt _ PosInf = True"
| "js_lt NegInf _ = True"
| "js_lt _ NegInf = False"

text \<open>\<open>Math.round\<close>: the nearest integer, a tie going up; the result is exact.\<close>

definition js_round :: "number \<Rightarrow> number" where
  "js_round x = (case x of Fin a \<Rightarrow> Fin (of_int \<lfloor>a + 1 / 2\<rfloor>) | _ \<Rightarrow> x)"

text \<open>\<open>Math.round(x * k) / k\<close>, the rounding to decimal places the generators use.\<close>

definition round_scaled :: "int \<Rightarrow> number \<Rightarrow> number" where
  "round_scaled k x = js_div (js_round (js_mul x (Fin (of_int k)))) (Fin (of_int k))"

text \<open>A number literal of the source text denotes the nearest binary64 value.\<close>

definition js_literal :: "rat \<Rightarrow> number" where
  "js_literal q = fl q"

section \<open>The random source, strings and arrays\<close>

text \<open>
  \<open>Math.random()\<close> is an oracle: the draws are given as a list of binary64 values in
  \<open>[0, 1)\<close>, consumed from the front; an exhausted list goes on with the draw \<open>0\<close>.
  Integer-valued numbers of magnitude below \<open>2^53\<close> are kept as \<open>int\<close>: sums, differences
  and products of them are exact in binary64 as long as they stay in that range, which
  they do for the operand ranges of this program (at most four factors of at most 1000).
\<close>

type_synonym rnd = "rat list"

definition random :: "rnd \<Rightarrow> rat \<times> rnd" where
  "random rs = (case rs of [] \<Rightarrow> (0, []) | r # rs' \<Rightarrow> (r, rs'))"

text \<open>\<open>Math.floor(Math.random() * n)\<close>.\<close>

definition random_floor :: "int \<Rightarrow> rnd \<Rightarrow> int \<times> rnd" where
  "random_floor n rs = (case random rs of (r, rs') \<Rightarrow> (\<lfloor>round53 (r * of_int n)\<rfloor>, rs'))"

definition randomNumber :: "int \<Rightarrow> int \<Rightarrow> rnd \<Rightarrow> int \<times> rnd" where
  "randomNumber lo hi rs = (case random_floor (hi - lo + 1) rs of (k, rs') \<Rightarrow> (k + lo, rs'))"

text \<open>Array indexing \<open>xs[i]\<close>: \<open>undefined\<close> (here \<open>None\<close>) outside the array.\<close>

definition at_index :: "'a list \<Rightarrow> int \<Rightarrow> 'a option" where
  "at_index xs i = (if 0 \<le> i \<and> i < int (length xs) then Some (xs ! nat i) else None)"

text \<open>The decimal digits of an integer \<open>n \<ge> 0\<close>.\<close>

function show_nat :: "int \<Rightarrow> string" where
  "show_nat n =
     (if n < 10 then [''0123456789'' ! nat n]
      else show_nat (n div 10) @ [''0123456789'' ! nat (n mod 10)])"
  by pat_completeness auto
termination
  by (relation "measure nat") auto

declare show_nat.simps [simp del]

definition show_int :: "int \<Rightarrow> string" where
  "show_int i = (if i < 0 then CHR ''-'' # show_nat (- i) else show_nat i)"

text \<open>
  \<open>Number.prototype.toString\<close>. An integer (of magnitude below \<open>10^21\<close>) prints its
  decimal digits; for the other finite values the shortest round-trip decimal is not
  modelled and is the parameter \<open>fmt\<close>.
\<close>

definition numberToString :: "(rat \<Rightarrow> string) \<Rightarrow> number \<Rightarrow> string" where
  "numberToString fmt x =
     (case x of
        Fin a \<Rightarrow> (if a = of_int \<lfloor>a\<rfloor> then show_int \<lfloor>a\<rfloor> else fmt a)
      | PosInf \<Rightarrow> ''Infinity''
      | NegInf \<Rightarrow> ''-Infinity''
      | NaN \<Rightarrow> ''NaN'')"

section \<open>QuestionGenerator\<close>

datatype difficulty = Easy | Medium | Hard

datatype operator = Plus | Minus | Times | Divide

definition op_text :: "operator option \<Rightarrow> string" where
  "op_text op = (case op of
       Some Plus \<Rightarrow> ''+'' | Some Minus \<Rightarrow> ''-'' | Some Times \<Rightarrow> ''*'' | Some Divide \<Rightarrow> ''/''
     | None \<Rightarrow> ''undefined'')"

text \<open>\<open>Omit<Question, "id" | "createdAt">\<close>, what the archetypes return.\<close>

record question_body =
  problem :: string
  answer :: number
  difficulty :: difficulty

record question = question_body +
  qid :: string
  createdAt :: int

record config =
  min_val :: int
  max_val :: int
  operators :: "operator list"
  maxTerms :: int
  allowDecimals :: bool
  allowNegatives :: bool

definition QUESTION_TYPES :: "string list" where
  "QUESTION_TYPES =
     [''arithmetic'', ''algebra'', ''fractions'', ''percentages'', ''powers'', ''mixed'']"

definition DIFFICULTY_CONFIG :: "difficulty \<Rightarrow> config" where
  "DIFFICULTY_CONFIG d =
     (case d of
        Easy \<Rightarrow> \<lparr>min_val = 1, max_val = 50, operators = [Plus, Minus], maxTerms = 2,
                  allowDecimals = False, allowNegatives = False\<rparr>
      | Medium \<Rightarrow> \<lparr>min_val = 1, max_val = 200, operators = [Plus, Minus, Times], maxTerms = 3,
                  allowDecimals = True, allowNegatives = True\<rparr>
      | Hard \<Rightarrow> \<lparr>min_val = 1, max_val = 1000, operators = [Plus, Minus, Times, Divide],
                  maxTerms = 4, allowDecimals = True, allowNegatives = True\<rparr>)"

text \<open>The static state of the class: the dedupe set, in insertion order, and the counter.\<close>

record generator =
  generatedQuestions :: "string list"
  questionCounter :: int

definition isValidAnswer :: "number \<Rightarrow> bool" where
  "isValidAnswer result = (case result of Fin a \<Rightarrow> \<bar>a\<bar> < 1000000 | _ \<Rightarrow> False)"

definition getRandomQuestionType :: "difficulty \<Rightarrow> rnd \<Rightarrow> string \<times> rnd" where
  "getRandomQuestionType d rs =
     (case random_floor (case d of Easy \<Rightarrow> 2 | Medium \<Rightarrow> 4
                                   | Hard \<Rightarrow> int (length QUESTION_TYPES)) rs of
        (i, rs') \<Rightarrow> (case at_index QUESTION_TYPES i of Some t \<Rightarrow> t | None \<Rightarrow> ''arithmetic'', rs'))"

subsection \<open>Expression chains and their evaluation\<close>

text \<open>
  \<open>generateArithmeticExpression\<close> builds the text \<open>n0 op1 n1 op2 n2 ...\<close>; the chain is
  kept as the first operand and the list of (operator, operand) pairs, and the text is
  rendered from it. \<open>evaluate\<close> stands for the \<open>mathjs\<close> function on such a text:
  \<open>*\<close> and \<open>/\<close> bind tighter than \<open>+\<close> and \<open>-\<close>, operators of equal
  precedence associate to the left, every operation is a binary64 operation, and an
  operator that is \<open>undefined\<close> makes it throw (\<open>None\<close>).
\<close>

type_synonym chain = "int \<times> (operator option \<times> int) list"

definition chain_text :: "chain \<Rightarrow> string" where
  "chain_text c =
     show_int (fst c) @ concat (map (\<lambda>(op, n). '' '' @ op_text op @ '' '' @ show_int n) (snd c))"

definition add_term :: "number option \<Rightarrow> operator \<Rightarrow> number \<Rightarrow> number" where
  "add_term acc s cur =
     (case acc of None \<Rightarrow> cur
      | Some v \<Rightarrow> (if s = Minus then js_sub v cur else js_add v cur))"

fun eval_chain :: "number option \<Rightarrow> operator \<Rightarrow> number \<Rightarrow> (operator option \<times> int) list \<Rightarrow> number option" where
  "eval_chain acc s cur [] = Some (add_term acc s cur)"
| "eval_chain acc s cur ((None, n) # xs) = None"
| "eval_chain acc s cur ((Some Times, n) # xs) = eval_chain acc s (js_mul cur (Fin (of_int n))) xs"
| "eval_chain acc s cur ((Some Divide, n) # xs) = eval_chain acc s (js_div cur (Fin (of_int n))) xs"
| "eval_chain acc s cur ((Some Plus, n) # xs) =
     eval_chain (Some (add_term acc s cur)) Plus (Fin (of_int n)) xs"
| "eval_chain acc s cur ((Some Minus, n) # xs) =
     eval_chain (Some (add_term acc s cur)) Minus (Fin (of_int n)) xs"

definition evaluate :: "chain \<Rightarrow> number option" where
  "evaluate c = eval_chain None Plus (Fin (of_int (fst c))) (snd c)"

subsection \<open>findDivisor\<close>

text \<open>
  The loop \<open>for (i = 1; i <= Math.sqrt(num); i++)\<close>; for an integer \<open>num\<close> below
  \<open>2^52\<close> the test is \<open>i * i \<le> num\<close>.
\<close>

function divisors_from :: "int \<Rightarrow> int \<Rightarrow> int list \<Rightarrow> int list" where
  "divisors_from num i divisors =
     (if 0 < i \<and> i * i \<le> num
      then divisors_from num (i + 1)
             (if num mod i = 0
              then (if i \<noteq> num div i then divisors @ [i, num div i] else divisors @ [i])
              else divisors)
      else divisors)"
  by pat_completeness auto
termination
proof (relation "measure (\<lambda>(num, i, divisors). nat (num + 1 - i))")
  show "wf (measure (\<lambda>(num, i, divisors). nat (num + 1 - i)))" by simp
next
  fix num i :: int and divisors :: "int list"
  assume a: "0 < i \<and> i * i \<le> num"
  then have "i \<le> i * i"
    using mult_left_mono [of 1 i i] by simp
  with a have "i \<le> num" by linarith
  then show "((num, i + 1, if num mod i = 0 then if i \<noteq> num div i then divisors @ [i, num div i]
                 else divisors @ [i] else divisors), num, i, divisors)
             \<in> measure (\<lambda>(num, i, divisors). nat (num + 1 - i))"
    by simp
qed

declare divisors_from.simps [simp del]

definition findDivisor :: "int \<Rightarrow> rnd \<Rightarrow> int \<times> rnd" where
  "findDivisor num rs =
     (if num \<le> 1 then (1, rs)
      else let divisors = divisors_from num 1 []
           in case random_floor (int (length divisors)) rs of
                (i, rs') \<Rightarrow> (case at_index divisors i of
                               Some d \<Rightarrow> (if d = 0 then 1 else d) | None \<Rightarrow> 1, rs'))"

subsection \<open>The archetypes\<close>

text \<open>
  The loop body of \<open>generateArithmeticExpression\<close>, for the \<open>k\<close> operands still to
  append. \<open>None\<close> is an exception thrown by \<open>evaluate\<close>; the call of \<open>findDivisor\<close>
  on a non-finite value, which would not return, is not reached (no prefix of a chain
  divides by zero) and is given the same outcome.
\<close>

fun append_terms :: "config \<Rightarrow> nat \<Rightarrow> chain \<Rightarrow> rnd \<Rightarrow> chain option \<times> rnd" where
  "append_terms cfg 0 c rs = (Some c, rs)"
| "append_terms cfg (Suc k) c rs =
     (case random_floor (int (length (operators cfg))) rs of (oi, rs1) \<Rightarrow>
      let operator = at_index (operators cfg) oi in
      case randomNumber (min_val cfg) (max_val cfg) rs1 of (nextNumber, rs2) \<Rightarrow>
      if operator = Some Divide then
        (let nextNumber1 = max 1 nextNumber in
         case evaluate c of
           None \<Rightarrow> (None, rs2)
         | Some (Fin currentResult) \<Rightarrow>
             (if currentResult / of_int nextNumber1
                   \<noteq> of_int \<lfloor>currentResult / of_int nextNumber1\<rfloor>
              then (case random rs2 of (r, rs3) \<Rightarrow>
                    if js_lt (js_literal (3 / 10)) (Fin r)
                    then (case findDivisor \<bar>\<lfloor>currentResult\<rfloor>\<bar> rs3 of (d, rs4) \<Rightarrow>
                          append_terms cfg k
                            (fst c, snd c @ [(operator, if d = 0 then nextNumber1 else d)]) rs4)
                    else append_terms cfg k (fst c, snd c @ [(operator, nextNumber1)]) rs3)
              else append_terms cfg k (fst c, snd c @ [(operator, nextNumber1)]) rs2)
         | Some _ \<Rightarrow> (None, rs2))
      else append_terms cfg k (fst c, snd c @ [(operator, nextNumber)]) rs2)"

definition generateArithmeticExpression :: "config \<Rightarrow> int \<Rightarrow> rnd \<Rightarrow> chain option \<times> rnd" where
  "generateArithmeticExpression cfg numTerms rs =
     (case randomNumber (min_val cfg) (max_val cfg) rs of
        (n0, rs1) \<Rightarrow> append_terms cfg (nat (numTerms - 1)) (n0, []) rs1)"

text \<open>
  The loop of \<open>generateArithmetic\<close>; \<open>expression\<close> and \<open>answer\<close> are the loop's
  variables, returned when it ends.
\<close>

function arithmetic_loop :: "config \<Rightarrow> int \<Rightarrow> nat \<Rightarrow> string \<Rightarrow> number \<Rightarrow> rnd
    \<Rightarrow> (string \<times> number) option \<times> rnd" where
  "arithmetic_loop cfg numTerms attempts expression ans rs =
     (if attempts < 20 then
        (case generateArithmeticExpression cfg numTerms rs of
           (None, rs') \<Rightarrow> (None, rs')
         | (Some c, rs') \<Rightarrow>
             (case evaluate c of
                None \<Rightarrow> arithmetic_loop cfg numTerms (attempts + 1) (chain_text c) ans rs'
              | Some result \<Rightarrow>
                  if isValidAnswer result
                  then (Some (chain_text c, round_scaled 100 result), rs')
                  else arithmetic_loop cfg numTerms (attempts + 1) (chain_text c) ans rs'))
      else (Some (expression, ans), rs))"
  by pat_completeness auto
termination
  by (relation "measure (\<lambda>(cfg, numTerms, attempts, expression, ans, rs). 20 - attempts)") auto

declare arithmetic_loop.simps [simp del]

definition generateArithmetic :: "difficulty \<Rightarrow> rnd \<Rightarrow> question_body option \<times> rnd" where
  "generateArithmetic d rs =
     (let cfg = DIFFICULTY_CONFIG d in
      case random_floor (maxTerms cfg - 1) rs of (k, rs1) \<Rightarrow>
      case arithmetic_loop cfg (k + 2) 0 [] (Fin 0) rs1 of
        (None, rs2) \<Rightarrow> (None, rs2)
      | (Some (expression, ans), rs2) \<Rightarrow>
          (Some \<lparr>problem = ''Calculate: '' @ expression, answer = ans, difficulty = d\<rparr>, rs2))"

definition generateAlgebra :: "difficulty \<Rightarrow> rnd \<Rightarrow> question_body \<times> rnd" where
  "generateAlgebra d rs =
     (let hi = (case d of Easy \<Rightarrow> 20 | Medium \<Rightarrow> 50 | Hard \<Rightarrow> 100) in
      case randomNumber 1 hi rs of (a, rs1) \<Rightarrow>
      case randomNumber 1 hi rs1 of (b, rs2) \<Rightarrow>
      case randomNumber 1 hi rs2 of (x, rs3) \<Rightarrow>
      let expressions =
        [''If '' @ show_int a @ ''x + '' @ show_int b @ '' = '' @ show_int (a * x + b) @ '', find x'',
         ''Solve for x: '' @ show_int a @ ''x - '' @ show_int b @ '' = '' @ show_int (a * x - b),
         ''What is x when '' @ show_int a @ ''(x + '' @ show_int b @ '') = ''
            @ show_int (a * (x + b)) @ ''?'',
         ''Find x: '' @ show_int a @ ''x = '' @ show_int (a * x)] in
      case random_floor (int (length expressions)) rs3 of (i, rs4) \<Rightarrow>
      (case at_index expressions i of
         None \<Rightarrow> \<lparr>problem = ''Calculate: '' @ show_int a @ '' + '' @ show_int b,
                   answer = Fin (of_int (a + b)), difficulty = d\<rparr>
       | Some selected \<Rightarrow> \<lparr>problem = selected, answer = Fin (of_int x), difficulty = d\<rparr>,
       rs4))"

definition generateFractions :: "difficulty \<Rightarrow> rnd \<Rightarrow> question_body \<times> rnd" where
  "generateFractions d rs =
     (let maxDenom = (case d of Easy \<Rightarrow> 10 | Medium \<Rightarrow> 20 | Hard \<Rightarrow> 50) in
      case randomNumber 1 (maxDenom - 1) rs of (num1, rs1) \<Rightarrow>
      case randomNumber (num1 + 1) maxDenom rs1 of (den1, rs2) \<Rightarrow>
      case randomNumber 1 (maxDenom - 1) rs2 of (num2, rs3) \<Rightarrow>
      case randomNumber (num2 + 1) maxDenom rs3 of (den2, rs4) \<Rightarrow>
      case random_floor 2 rs4 of (i, rs5) \<Rightarrow>
      let op = at_index [Plus, Minus] i;
          result = (if op = Some Plus
                    then js_div (Fin (of_int (num1 * den2 + num2 * den1))) (Fin (of_int (den1 * den2)))
                    else js_div (Fin (of_int (num1 * den2 - num2 * den1))) (Fin (of_int (den1 * den2))))
      in (\<lparr>problem = ''Calculate: '' @ show_int num1 @ ''/'' @ show_int den1 @ '' '' @ op_text op
                      @ '' '' @ show_int num2 @ ''/'' @ show_int den2 @ '' (as decimal)'',
           answer = round_scaled 1000 result, difficulty = d\<rparr>, rs5))"

definition generatePercentages :: "difficulty \<Rightarrow> rnd \<Rightarrow> question_body \<times> rnd" where
  "generatePercentages d rs =
     (case randomNumber 50 1000 rs of (base, rs1) \<Rightarrow>
      case randomNumber 5 95 rs1 of (percentage, rs2) \<Rightarrow>
      let percentOf =
            (''What is '' @ show_int percentage @ ''% of '' @ show_int base @ ''?'',
             round_scaled 100 (js_div (Fin (of_int (base * percentage))) (Fin 100)));
          types =
            [percentOf,
             (show_int base @ '' is what percent of ''
                @ numberToString (\<lambda>_. []) (js_round (js_div (Fin (of_int (base * 100)))
                                                      (Fin (of_int percentage)))) @ ''?'',
              Fin (of_int percentage))] in
      case random_floor (int (length types)) rs2 of (i, rs3) \<Rightarrow>
      (case at_index types i of
         None \<Rightarrow> \<lparr>problem = fst percentOf, answer = snd percentOf, difficulty = d\<rparr>
       | Some selected \<Rightarrow> \<lparr>problem = fst selected, answer = snd selected, difficulty = d\<rparr>,
       rs3))"

text \<open>
  \<open>Math.sqrt\<close> is correctly rounded: on an integer below \<open>2^52\<close> its result is an
  integer exactly when the argument is a perfect square, and is then the exact root.
  \<open>int_sqrt\<close> is the integer part of the root.
\<close>

function sqrt_from :: "int \<Rightarrow> int \<Rightarrow> int" where
  "sqrt_from n k = (if 0 \<le> k \<and> (k + 1) * (k + 1) \<le> n then sqrt_from n (k + 1) else k)"
  by pat_completeness auto
termination
proof (relation "measure (\<lambda>(n, k). nat (n - k))")
  show "wf (measure (\<lambda>(n, k). nat (n - k)))" by simp
next
  fix n k :: int
  assume a: "0 \<le> k \<and> (k + 1) * (k + 1) \<le> n"
  then have "k + 1 \<le> (k + 1) * (k + 1)"
    using mult_left_mono [of 1 "k + 1" "k + 1"] by simp
  with a have "k + 1 \<le> n" by linarith
  then show "((n, k + 1), n, k) \<in> measure (\<lambda>(n, k). nat (n - k))"
    by simp
qed

declare sqrt_from.simps [simp del]

definition int_sqrt :: "int \<Rightarrow> int" where
  "int_sqrt n = sqrt_from n 0"

text \<open>
  The source text of the square-root problem holds, before the number, the three
  characters U+00E2, U+02C6 and U+0161 (a radical sign whose UTF-8 bytes were decoded in a
  one-byte encoding); they are kept as the source has them, in UTF-8.
\<close>

definition radical_sign :: string where
  "radical_sign = [CHR 0xC3, CHR 0xA2, CHR 0xCB, CHR 0x86, CHR 0xC5, CHR 0xA1]"

definition generatePowers :: "difficulty \<Rightarrow> rnd \<Rightarrow> question_body \<times> rnd" where
  "generatePowers d rs =
     (let maxBase = (case d of Easy \<Rightarrow> 10 | Medium \<Rightarrow> 15 | Hard \<Rightarrow> 20);
          maxPower = (case d of Easy \<Rightarrow> 3 | Medium \<Rightarrow> 4 | Hard \<Rightarrow> 5) in
      case randomNumber 2 maxBase rs of (base, rs1) \<Rightarrow>
      case randomNumber 2 maxPower rs1 of (pw, rs2) \<Rightarrow>
      let result = base ^ nat pw;
          powerQuestion = \<lparr>problem = ''Calculate: '' @ show_int base @ ''^'' @ show_int pw,
                           answer = Fin (of_int result), difficulty = d\<rparr> in
      if 10000 < result then
        (case randomNumber 4 100 rs2 of (num, rs3) \<Rightarrow>
         let rt = int_sqrt num in
         if rt * rt = num
         then (\<lparr>problem = ''What is '' @ radical_sign @ show_int num @ ''?'',
                 answer = Fin (of_int rt), difficulty = d\<rparr>, rs3)
         else (powerQuestion, rs3))
      else (powerQuestion, rs2))"

text \<open>
  \<open>generateMixed\<close>: each of the six templates with the value \<open>evaluate\<close> gives it
  (the operands are at least 1, so no template divides by zero or throws).
\<close>

definition generateMixed :: "difficulty \<Rightarrow> rnd \<Rightarrow> question_body \<times> rnd" where
  "generateMixed d rs =
     (let cfg = DIFFICULTY_CONFIG d; hi = min (max_val cfg) 50 in
      case randomNumber (min_val cfg) hi rs of (a, rs1) \<Rightarrow>
      case randomNumber (min_val cfg) hi rs1 of (b, rs2) \<Rightarrow>
      case randomNumber (min_val cfg) hi rs2 of (c, rs3) \<Rightarrow>
      let A = show_int a; B = show_int b; C = show_int c;
          expressions =
            [(''('' @ A @ '' + '' @ B @ '') * '' @ C, Fin (of_int ((a + b) * c))),
             (A @ '' * ('' @ B @ '' + '' @ C @ '')'', Fin (of_int (a * (b + c)))),
             (''('' @ A @ '' + '' @ B @ '') / '' @ C,
                js_div (Fin (of_int (a + b))) (Fin (of_int c))),
             (A @ '' + '' @ B @ '' * '' @ C, Fin (of_int (a + b * c))),
             (A @ '' * '' @ B @ '' - '' @ C, Fin (of_int (a * b - c))),
             (''('' @ A @ '' - '' @ B @ '') + '' @ C @ '' * 2'', Fin (of_int ((a - b) + c * 2)))] in
      case random_floor (int (length expressions)) rs3 of (i, rs4) \<Rightarrow>
      (case at_index expressions i of
         None \<Rightarrow> \<lparr>problem = ''Calculate: '' @ A @ '' + '' @ B,
                   answer = Fin (of_int (a + b)), difficulty = d\<rparr>
       | Some (expression, result) \<Rightarrow>
           \<lparr>problem = ''Calculate: '' @ expression, answer = round_scaled 100 result,
            difficulty = d\<rparr>,
       rs4))"

definition generateQuestionByType :: "string \<Rightarrow> difficulty \<Rightarrow> rnd \<Rightarrow> question_body option \<times> rnd" where
  "generateQuestionByType ty d rs =
     (if ty = ''arithmetic'' then generateArithmetic d rs
      else if ty = ''algebra'' then map_prod Some (\<lambda>r. r) (generateAlgebra d rs)
      else if ty = ''fractions'' then map_prod Some (\<lambda>r. r) (generateFractions d rs)
      else if ty = ''percentages'' then map_prod Some (\<lambda>r. r) (generatePercentages d rs)
      else if ty = ''powers'' then map_prod Some (\<lambda>r. r) (generatePowers d rs)
      else if ty = ''mixed'' then map_prod Some (\<lambda>r. r) (generateMixed d rs)
      else generateArithmetic d rs)"

subsection \<open>generateQuestion\<close>

text \<open>
  The identifier is \<open>`${uuidv4()}-${questionCounter}`\<close> and \<open>createdAt\<close> is the clock;
  the fresh UUID and the time are parameters. \<open>generateSimpleArithmetic\<close> is the
  fallback.
\<close>

definition generateSimpleArithmetic :: "difficulty \<Rightarrow> string \<Rightarrow> int \<Rightarrow> generator \<Rightarrow> rnd
    \<Rightarrow> question \<times> generator \<times> rnd" where
  "generateSimpleArithmetic d uuid now gen rs =
     (let cfg = DIFFICULTY_CONFIG d in
      case randomNumber (min_val cfg) (max_val cfg) rs of (a, rs1) \<Rightarrow>
      case randomNumber (min_val cfg) (max_val cfg) rs1 of (b, rs2) \<Rightarrow>
      case random_floor 3 rs2 of (i, rs3) \<Rightarrow>
      let op = at_index [Plus, Minus, Times] i;
          result = (case op of Some Plus \<Rightarrow> a + b | Some Minus \<Rightarrow> a - b
                    | Some Times \<Rightarrow> a * b | _ \<Rightarrow> a + b);
          counter = questionCounter gen + 1
      in (\<lparr>problem = ''Calculate: '' @ show_int a @ '' '' @ op_text op @ '' '' @ show_int b,
           answer = Fin (of_int result), difficulty = d,
           qid = uuid @ ''-'' @ show_nat counter, createdAt = now\<rparr>,
          gen\<lparr>questionCounter := counter\<rparr>, rs3))"

text \<open>\<open>Set.prototype.add\<close> on a set kept in insertion order.\<close>

definition set_add :: "string \<Rightarrow> string list \<Rightarrow> string list" where
  "set_add k xs = (if k \<in> set xs then xs else xs @ [k])"

definition questionKey :: "(rat \<Rightarrow> string) \<Rightarrow> question_body \<Rightarrow> string" where
  "questionKey fmt q = problem q @ ''-'' @ numberToString fmt (answer q)"

text \<open>
  The accepted branch of the loop body: the key is added, the set is cut to its last
  100 keys when it has more than 150, the counter is incremented.
\<close>

definition remember :: "string \<Rightarrow> generator \<Rightarrow> generator" where
  "remember k gen =
     (let added = set_add k (generatedQuestions gen)
      in \<lparr>generatedQuestions =
            (if 150 < length added then drop (length added - 100) added else added),
          questionCounter = questionCounter gen + 1\<rparr>)"

function generateQuestion_loop :: "difficulty \<Rightarrow> (rat \<Rightarrow> string) \<Rightarrow> string \<Rightarrow> int \<Rightarrow> nat
    \<Rightarrow> generator \<Rightarrow> rnd \<Rightarrow> question \<times> generator \<times> rnd" where
  "generateQuestion_loop d fmt uuid now attempts gen rs =
     (if attempts < 50 then
        (case getRandomQuestionType d rs of (questionType, rs1) \<Rightarrow>
         case generateQuestionByType questionType d rs1 of
           (None, rs2) \<Rightarrow> generateQuestion_loop d fmt uuid now (attempts + 1) gen rs2
         | (Some q, rs2) \<Rightarrow>
             if questionKey fmt q \<notin> set (generatedQuestions gen)
                \<or> 100 < length (generatedQuestions gen)
             then (let gen' = remember (questionKey fmt q) gen
                   in (\<lparr>problem = problem q, answer = answer q, difficulty = difficulty q,
                        qid = uuid @ ''-'' @ show_nat (questionCounter gen'),
                        createdAt = now\<rparr>, gen', rs2))
             else generateQuestion_loop d fmt uuid now (attempts + 1) gen rs2)
      else generateSimpleArithmetic d uuid now gen rs)"
  by pat_completeness auto
termination
  by (relation "measure (\<lambda>(d, fmt, uuid, now, attempts, gen, rs). 50 - attempts)") auto

declare generateQuestion_loop.simps [simp del]

definition generateQuestion :: "difficulty \<Rightarrow> (rat \<Rightarrow> string) \<Rightarrow> string \<Rightarrow> int
    \<Rightarrow> generator \<Rightarrow> rnd \<Rightarrow> question \<times> generator \<times> rnd" where
  "generateQuestion d fmt uuid now gen rs = generateQuestion_loop d fmt uuid now 0 gen rs"

definition resetQuestionHistory :: "generator \<Rightarrow> generator" where
  "resetQuestionHistory gen = \<lparr>generatedQuestions = [], questionCounter = 0\<rparr>"

section \<open>GameService\<close>

record winnerRecord =
  w_userId :: string
  w_username :: string
  w_submissionTime :: int

record gameState =
  currentQuestion :: "question option"
  isActive :: bool
  startTime :: "int option"
  winner :: "winnerRecord option"
  participants :: "string set"

record submissionResult =
  isCorrect :: bool
  isWinner :: bool
  submissionTime :: int
  timeTaken :: int

record socketUser =
  su_id :: string
  su_username :: string
  su_socketId :: string

text \<open>
  The fields of the service object. \<open>connectedUsers\<close> is the \<open>Map\<close> from socket
  identifiers, kept as an association list with distinct keys; the two callbacks are
  kept as "is set".
\<close>

record gameService =
  gameState :: gameState
  connectedUsers :: "(string \<times> socketUser) list"
  submissionLock :: bool
  currentDifficulty :: difficulty
  questionChangeCallback :: bool
  winnerAnnouncementCallback :: bool

text \<open>
  What a winning call holds while it awaits the score-ledger write: the arguments of
  \<open>updateUserScore\<close> and the score it computed before the write was issued.
\<close>

record pendingScore =
  p_userId :: string
  p_username :: string
  p_submissionTime :: int
  p_timeTaken :: int
  p_totalScore :: int

datatype db_outcome = DbOk | DbError

datatype error = TypeError

text \<open>
  The process around the service object: the generator's static state, the \<open>users\<close>
  collection (user name to high score and games won), the delays of the
  \<open>setTimeout\<close> calls that will run \<open>startNewQuestion\<close>, the calls made of the two
  callbacks, the winning calls suspended at their ledger write, and the results
  returned to the callers so far.
\<close>

record world =
  service :: gameService
  questionGenerator :: generator
  userModel :: "(string \<times> int \<times> int) list"
  timers :: "nat list"
  winnerAnnounced :: "(string \<times> string \<times> int \<times> number) list"
  questionChanged :: "question list"
  awaiting :: "pendingScore list"
  returned :: "(error + submissionResult) list"

definition constructor :: world where
  "constructor =
     \<lparr>service =
        \<lparr>gameState = \<lparr>currentQuestion = None, isActive = False, startTime = None,
                       winner = None, participants = {}\<rparr>,
         connectedUsers = [], submissionLock = False, currentDifficulty = Medium,
         questionChangeCallback = False, winnerAnnouncementCallback = False\<rparr>,
      questionGenerator = \<lparr>generatedQuestions = [], questionCounter = 0\<rparr>,
      userModel = [], timers = [1000], winnerAnnounced = [], questionChanged = [],
      awaiting = [], returned = []\<rparr>"

definition getBaseScore :: "difficulty \<Rightarrow> int" where
  "getBaseScore d = (case d of Easy \<Rightarrow> 100 | Medium \<Rightarrow> 250 | Hard \<Rightarrow> 500)"

text \<open>
  \<open>Math.floor(baseScore + timeBonus / 1000)\<close> on integers with \<open>timeBonus \<ge> 0\<close>.
\<close>

definition totalScore :: "difficulty \<Rightarrow> int \<Rightarrow> int" where
  "totalScore d taken = getBaseScore d + max 0 (10000 - taken) div 1000"

text \<open>The upsert of \<open>updateUserScore\<close>, when the write succeeds.\<close>

definition findOneAndUpdate :: "string \<Rightarrow> int \<Rightarrow> (string \<times> int \<times> int) list
    \<Rightarrow> (string \<times> int \<times> int) list" where
  "findOneAndUpdate name score users =
     (case map_of users name of
        None \<Rightarrow> users @ [(name, score, 1)]
      | Some (highScore, gamesWon) \<Rightarrow> AList.update name (highScore + score, gamesWon + 1) users)"

text \<open>\<open>Math.abs(answer - expectedAnswer) < 0.01\<close>.\<close>

definition answerIsCorrect :: "number \<Rightarrow> number \<Rightarrow> bool" where
  "answerIsCorrect ans expectedAnswer =
     js_lt (js_abs (js_sub ans expectedAnswer)) (js_literal (1 / 100))"

datatype submitStep = Returns submissionResult | Awaits pendingScore

text \<open>
  \<open>submitAnswer\<close> is an \<open>async\<close> function with one suspension point, the
  \<open>await\<close> of \<open>updateUserScore\<close>. \<open>submitAnswer_sync\<close> is the part that runs when
  the call is made, up to that point or to a \<open>return\<close>; \<open>now\<close> is the clock read by
  \<open>new Date()\<close>.
\<close>

definition submitAnswer_sync :: "string \<Rightarrow> string \<Rightarrow> number \<Rightarrow> int \<Rightarrow> gameService
    \<Rightarrow> submitStep \<times> gameService" where
  "submitAnswer_sync uid uname ans now s =
     (let gs = gameState s;
          inactive = \<lparr>isCorrect = False, isWinner = False, submissionTime = now, timeTaken = 0\<rparr>
      in case currentQuestion gs of
           None \<Rightarrow> (Returns inactive, s)
         | Some q \<Rightarrow>
        (case startTime gs of
           None \<Rightarrow> (Returns inactive, s)
         | Some started \<Rightarrow>
        if \<not> isActive gs then (Returns inactive, s)
        else let taken = now - started in
        if \<not> answerIsCorrect ans (answer q)
        then (Returns \<lparr>isCorrect = False, isWinner = False, submissionTime = now,
                       timeTaken = taken\<rparr>, s)
        else if submissionLock s \<or> winner gs \<noteq> None
        then (Returns \<lparr>isCorrect = True, isWinner = False, submissionTime = now,
                       timeTaken = taken\<rparr>, s)
        else if winner gs \<noteq> None
        then (Returns \<lparr>isCorrect = True, isWinner = False, submissionTime = now,
                       timeTaken = taken\<rparr>, s\<lparr>submissionLock := False\<rparr>)
        else (Awaits \<lparr>p_userId = uid, p_username = uname, p_submissionTime = now,
                      p_timeTaken = taken,
                      p_totalScore = totalScore (currentDifficulty s) taken\<rparr>,
              s\<lparr>submissionLock := True,
                gameState := gs\<lparr>winner := Some \<lparr>w_userId = uid, w_username = uname,
                                               w_submissionTime = now\<rparr>,
                                 isActive := False\<rparr>\<rparr>)))"

text \<open>
  The rest of the call, run when the ledger write has settled: \<open>updateUserScore\<close> has
  swallowed a failure, the winner is announced with the answer of the question that is
  current now, the next round is scheduled, the result is returned and the
  \<open>finally\<close> block releases the lock. Reading \<open>answer\<close> of a null question throws,
  through the \<open>finally\<close> block.
\<close>

definition submitAnswer_resume :: "pendingScore \<Rightarrow> db_outcome \<Rightarrow> world
    \<Rightarrow> (error + submissionResult) \<times> world" where
  "submitAnswer_resume p outcome w =
     (let w1 = (case outcome of
                  DbOk \<Rightarrow> w\<lparr>userModel := findOneAndUpdate (p_username p) (p_totalScore p)
                                              (userModel w)\<rparr>
                | DbError \<Rightarrow> w);
          released = (service w1)\<lparr>submissionLock := False\<rparr>;
          won = \<lparr>isCorrect = True, isWinner = True, submissionTime = p_submissionTime p,
                 timeTaken = p_timeTaken p\<rparr>
      in if winnerAnnouncementCallback (service w1) then
           (case currentQuestion (gameState (service w1)) of
              None \<Rightarrow> (Inl TypeError, w1\<lparr>service := released\<rparr>)
            | Some q \<Rightarrow>
                (Inr won,
                 w1\<lparr>service := released,
                    winnerAnnounced := winnerAnnounced w1
                       @ [(p_userId p, p_username p, p_timeTaken p, answer q)],
                    timers := timers w1 @ [3000]\<rparr>))
         else (Inr won, w1\<lparr>service := released, timers := timers w1 @ [3000]\<rparr>))"

text \<open>A call whose ledger write settles before anything else runs.\<close>

definition submitAnswer :: "db_outcome \<Rightarrow> string \<Rightarrow> string \<Rightarrow> number \<Rightarrow> int \<Rightarrow> world
    \<Rightarrow> (error + submissionResult) \<times> world" where
  "submitAnswer outcome uid uname ans now w =
     (case submitAnswer_sync uid uname ans now (service w) of
        (Returns r, s') \<Rightarrow> (Inr r, w\<lparr>service := s'\<rparr>)
      | (Awaits p, s') \<Rightarrow> submitAnswer_resume p outcome (w\<lparr>service := s'\<rparr>))"

definition adjustDifficulty :: "gameService \<Rightarrow> gameService" where
  "adjustDifficulty s =
     (let participantCount = length (connectedUsers s)
      in s\<lparr>currentDifficulty :=
             (if participantCount \<le> 2 then Easy
              else if participantCount \<le> 5 then Medium
              else Hard)\<rparr>)"

definition startNewQuestion :: "(rat \<Rightarrow> string) \<Rightarrow> string \<Rightarrow> int \<Rightarrow> rnd \<Rightarrow> world \<Rightarrow> world" where
  "startNewQuestion fmt uuid now rs w =
     (let s1 = adjustDifficulty (service w) in
      case generateQuestion (currentDifficulty s1) fmt uuid now (questionGenerator w) rs of
        (q, gen', rs') \<Rightarrow>
          w\<lparr>service :=
               s1\<lparr>gameState := \<lparr>currentQuestion = Some q, isActive = True,
                                 startTime = Some now, winner = None,
                                 participants = set (map fst (connectedUsers s1))\<rparr>,
                  submissionLock := False\<rparr>,
            questionGenerator := gen',
            questionChanged :=
               (if questionChangeCallback s1 then questionChanged w @ [q]
                else questionChanged w)\<rparr>)"

definition addUser :: "string \<Rightarrow> string \<Rightarrow> string \<Rightarrow> world \<Rightarrow> world" where
  "addUser socketId userId username w =
     (let s = service w;
          users = AList.update socketId
                    \<lparr>su_id = userId, su_username = username, su_socketId = socketId\<rparr>
                    (connectedUsers s);
          gs = gameState s
      in w\<lparr>service := s\<lparr>connectedUsers := users,
                          gameState := gs\<lparr>participants := insert userId (participants gs)\<rparr>\<rparr>,
            timers := (if length users = 1 \<or> currentQuestion gs = None
                       then timers w @ [500] else timers w)\<rparr>)"

definition removeUser :: "string \<Rightarrow> world \<Rightarrow> world" where
  "removeUser socketId w =
     (let s = service w; gs = gameState s
      in case map_of (connectedUsers s) socketId of
           None \<Rightarrow> w
         | Some user \<Rightarrow>
             w\<lparr>service := s\<lparr>connectedUsers := AList.delete socketId (connectedUsers s),
                             gameState := gs\<lparr>participants := participants gs - {su_id user}\<rparr>\<rparr>\<rparr>)"

definition forceNewQuestion :: "(rat \<Rightarrow> string) \<Rightarrow> string \<Rightarrow> int \<Rightarrow> rnd \<Rightarrow> world \<Rightarrow> world" where
  "forceNewQuestion fmt uuid now rs w =
     (let s = service w; gs = gameState s
      in startNewQuestion fmt uuid now rs
           (w\<lparr>service := s\<lparr>gameState := gs\<lparr>winner := None, isActive := False\<rparr>,
                            submissionLock := False\<rparr>\<rparr>))"

subsection \<open>Interleaved executions\<close>

text \<open>
  The process is single-threaded: between two suspension points a function runs alone.
  An execution is a sequence of events, each one such uninterrupted run: a call of
  \<open>submitAnswer\<close> (its synchronous part), the settling of the ledger write of the
  \<open>i\<close>-th suspended call (its continuation), and calls of the other methods, by their
  timers or by the transport layer.
\<close>

datatype event =
    SubmitAnswer string string number int
  | LedgerSettles nat db_outcome
  | StartNewQuestion string int rnd
  | ForceNewQuestion string int rnd
  | AddUser string string string
  | RemoveUser string
  | SetQuestionChangeCallback
  | SetWinnerAnnouncementCallback

definition step :: "(rat \<Rightarrow> string) \<Rightarrow> event \<Rightarrow> world \<Rightarrow> world" where
  "step fmt e w =
     (case e of
        SubmitAnswer uid uname ans now \<Rightarrow>
          (case submitAnswer_sync uid uname ans now (service w) of
             (Returns r, s') \<Rightarrow> w\<lparr>service := s', returned := returned w @ [Inr r]\<rparr>
           | (Awaits p, s') \<Rightarrow> w\<lparr>service := s', awaiting := awaiting w @ [p]\<rparr>)
      | LedgerSettles i outcome \<Rightarrow>
          (if i < length (awaiting w)
           then (case submitAnswer_resume (awaiting w ! i) outcome
                        (w\<lparr>awaiting := take i (awaiting w) @ drop (Suc i) (awaiting w)\<rparr>) of
                   (r, w') \<Rightarrow> w'\<lparr>returned := returned w' @ [r]\<rparr>)
           else w)
      | StartNewQuestion uuid now rs \<Rightarrow> startNewQuestion fmt uuid now rs w
      | ForceNewQuestion uuid now rs \<Rightarrow> forceNewQuestion fmt uuid now rs w
      | AddUser socketId userId username \<Rightarrow> addUser socketId userId username w
      | RemoveUser socketId \<Rightarrow> removeUser socketId w
      | SetQuestionChangeCallback \<Rightarrow>
          w\<lparr>service := (service w)\<lparr>questionChangeCallback := True\<rparr>\<rparr>
      | SetWinnerAnnouncementCallback \<Rightarrow>
          w\<lparr>service := (service w)\<lparr>winnerAnnouncementCallback := True\<rparr>\<rparr>)"

fun run :: "(rat \<Rightarrow> string) \<Rightarrow> event list \<Rightarrow> world \<Rightarrow> world" where
  "run fmt [] w = w"
| "run fmt (e # es) w = run fmt es (step fmt e w)"

text \<open>A round is replaced when \<open>startNewQuestion\<close> runs, directly or by a forced reset.\<close>

definition starts_round :: "event \<Rightarrow> bool" where
  "starts_round e = (case e of StartNewQuestion _ _ _ \<Rightarrow> True | ForceNewQuestion _ _ _ \<Rightarrow> True
                     | _ \<Rightarrow> False)"

text \<open>
  The result a call of \<open>submitAnswer\<close> made in world \<open>w\<close> gives its caller: the value
  returned at once, or, for a call suspended at the ledger write, the value its
  continuation returns.
\<close>

definition promised :: "submitStep \<Rightarrow> submissionResult" where
  "promised st =
     (case st of
        Returns r \<Rightarrow> r
      | Awaits p \<Rightarrow> \<lparr>isCorrect = True, isWinner = True, submissionTime = p_submissionTime p,
                     timeTaken = p_timeTaken p\<rparr>)"

definition wins :: "event \<Rightarrow> world \<Rightarrow> bool" where
  "wins e w =
     (case e of
        SubmitAnswer uid uname ans now \<Rightarrow>
          isWinner (promised (fst (submitAnswer_sync uid uname ans now (service w))))
      | _ \<Rightarrow> False)"

text \<open>The number of calls made during an execution that are told \<open>isWinner: true\<close>.\<close>

fun winners :: "(rat \<Rightarrow> string) \<Rightarrow> event list \<Rightarrow> world \<Rightarrow> nat" where
  "winners fmt [] w = 0"
| "winners fmt (e # es) w = (if wins e w then 1 else 0) + winners fmt es (step fmt e w)"

definition difficulty_rank :: "difficulty \<Rightarrow> nat" where
  "difficulty_rank d = (case d of Easy \<Rightarrow> 0 | Medium \<Rightarrow> 1 | Hard \<Rightarrow> 2)"

text \<open>
  The invariant of the service: while a winner is recorded or the lock is held, the
  round is not active; and a call is suspended only once there is a question.
\<close>

definition closed_when_won :: "world \<Rightarrow> bool" where
  "closed_when_won w =
     ((winner (gameState (service w)) \<noteq> None \<or> submissionLock (service w)
         \<longrightarrow> \<not> isActive (gameState (service w)))
      \<and> (awaiting w \<noteq> [] \<longrightarrow> currentQuestion (gameState (service w)) \<noteq> None))"


text \<open>
  The static state after a sequence of calls of \<open>generateQuestion\<close>, each with its
  difficulty, fresh UUID, clock and random draws.
\<close>

fun generateQuestions :: "(rat \<Rightarrow> string) \<Rightarrow> (difficulty \<times> string \<times> int \<times> rnd) list
    \<Rightarrow> generator \<Rightarrow> generator" where
  "generateQuestions fmt [] gen = gen"
| "generateQuestions fmt ((d, uuid, now, rs) # calls) gen =
     generateQuestions fmt calls (fst (snd (generateQuestion d fmt uuid now gen rs)))"

section \<open>Example executions\<close>

text \<open>
  Concrete executions, used to check the theorems below on inputs that satisfy their
  hypotheses. Non-integer numbers are never printed in them, so the formatter is
  arbitrary.
\<close>

definition no_fmt :: "rat \<Rightarrow> string" where
  "no_fmt = (\<lambda>_. [])"

text \<open>
  One player joins, the announcement callback is installed and a round starts: with
  these draws the question is \<open>Calculate: 19 + 23\<close>, answer 42.
\<close>

definition round_opening :: "event list" where
  "round_opening =
     [AddUser ''s1'' ''u1'' ''ann'', SetWinnerAnnouncementCallback,
      StartNewQuestion ''uuid'' 1000 [0, 0, 3 / 8, 0, 29 / 64]]"

text \<open>A wrong answer, then two correct ones.\<close>

definition round_play :: "event list" where
  "round_play =
     [SubmitAnswer ''u1'' ''ann'' (Fin 43) 1400,
      SubmitAnswer ''u2'' ''bob'' (Fin 42) 1500,
      SubmitAnswer ''u1'' ''ann'' (Fin 42) 1600]"

text \<open>The service with \<open>k\<close> connected players and no round yet.\<close>

definition crowd :: "nat \<Rightarrow> world" where
  "crowd k =
     run no_fmt
       (map (\<lambda>i. AddUser (''s'' @ show_nat (int i)) (''u'' @ show_nat (int i)) (''player'' @ show_nat (int i)))
            [0..<k])
       constructor"

text \<open>The round after its first correct answer, the ledger write settled.\<close>

definition round_won :: "event list" where
  "round_won =
     round_opening @ [SubmitAnswer ''u2'' ''bob'' (Fin 42) 1500, LedgerSettles 0 DbOk]"

text \<open>
  Calls that each produce a new question: call \<open>i\<close> draws the archetype "algebra", the
  operands \<open>a = i mod 20 + 1\<close>, \<open>b = 1\<close>, \<open>x = i div 20 + 1\<close> and the fourth
  template, \<open>Find x: ax = ...\<close>.
\<close>

definition fresh_call :: "nat \<Rightarrow> difficulty \<times> string \<times> int \<times> rnd" where
  "fresh_call i =
     (Easy, ''uuid'', int i,
      [3 / 4, of_nat (i mod 20) / 20, 0, of_nat (i div 20) / 20, 3 / 4])"

text \<open>A dedupe set holding 150 keys, \<open>key0\<close> (the oldest) to \<open>key149\<close>.\<close>

definition full_generator :: generator where
  "full_generator =
     \<lparr>generatedQuestions = map (\<lambda>i. ''key'' @ show_nat (int i)) [0..<150],
      questionCounter = 150\<rparr>"

section \<open>Properties of submitAnswer\<close>

subsection \<open>The synchronous part and the continuation\<close>

lemma submitAnswer_sync_inactive:
  "\<not> isActive (gameState s) \<or> currentQuestion (gameState s) = None \<or> startTime (gameState s) = None
   \<Longrightarrow> submitAnswer_sync uid uname ans now s =
        (Returns \<lparr>isCorrect = False, isWinner = False, submissionTime = now, timeTaken = 0\<rparr>, s)"
  by (auto simp: submitAnswer_sync_def Let_def split: option.splits)

lemma submitAnswer_sync_Returns:
  assumes "submitAnswer_sync uid uname ans now s = (Returns r, s')"
  shows "\<not> isWinner r \<and> gameState s' = gameState s"
  using assms
  by (auto simp: submitAnswer_sync_def Let_def split: option.splits if_splits)

lemma submitAnswer_sync_Awaits:
  assumes "submitAnswer_sync uid uname ans now s = (Awaits p, s')"
  shows "isActive (gameState s) \<and> \<not> isActive (gameState s')
         \<and> winner (gameState s') = Some \<lparr>w_userId = uid, w_username = uname, w_submissionTime = now\<rparr>
         \<and> winner (gameState s) = None \<and> \<not> submissionLock s
         \<and> currentQuestion (gameState s) \<noteq> None"
  using assms
  by (auto simp: submitAnswer_sync_def Let_def split: option.splits if_splits)

lemma submitAnswer_sync_lock:
  "submissionLock (snd (submitAnswer_sync uid uname ans now s))
   \<Longrightarrow> submissionLock s \<or> \<not> isActive (gameState (snd (submitAnswer_sync uid uname ans now s)))"
  by (auto simp: submitAnswer_sync_def Let_def split: option.splits if_splits)

lemma submitAnswer_sync_question:
  "currentQuestion (gameState (snd (submitAnswer_sync uid uname ans now s)))
     = currentQuestion (gameState s)"
  by (simp add: submitAnswer_sync_def Let_def split: option.splits)

lemma submitAnswer_resume_gameState:
  "gameState (service (snd (submitAnswer_resume p outcome w))) = gameState (service w)"
  by (simp add: submitAnswer_resume_def Let_def split: db_outcome.splits option.splits)

lemma submitAnswer_resume_unlocked:
  "\<not> submissionLock (service (snd (submitAnswer_resume p outcome w)))"
  by (simp add: submitAnswer_resume_def Let_def split: db_outcome.splits option.splits)

lemma submitAnswer_resume_awaiting:
  "awaiting (snd (submitAnswer_resume p outcome w)) = awaiting w"
  by (simp add: submitAnswer_resume_def Let_def split: db_outcome.splits option.splits)

lemma submitAnswer_resume_result:
  assumes "currentQuestion (gameState (service w)) \<noteq> None"
  shows "fst (submitAnswer_resume p outcome w) = Inr (promised (Awaits p))"
  using assms
  by (auto simp: submitAnswer_resume_def promised_def Let_def split: db_outcome.splits)

lemma startNewQuestion_gameState:
  "isActive (gameState (service (startNewQuestion fmt uuid now rs w)))
   \<and> winner (gameState (service (startNewQuestion fmt uuid now rs w))) = None
   \<and> \<not> submissionLock (service (startNewQuestion fmt uuid now rs w))
   \<and> currentQuestion (gameState (service (startNewQuestion fmt uuid now rs w))) \<noteq> None"
  by (simp add: startNewQuestion_def Let_def split: prod.splits)

lemma addUser_gameState:
  "isActive (gameState (service (addUser socketId userId username w)))
     = isActive (gameState (service w))
   \<and> winner (gameState (service (addUser socketId userId username w)))
     = winner (gameState (service w))
   \<and> currentQuestion (gameState (service (addUser socketId userId username w)))
     = currentQuestion (gameState (service w))
   \<and> submissionLock (service (addUser socketId userId username w)) = submissionLock (service w)
   \<and> awaiting (addUser socketId userId username w) = awaiting w"
  by (simp add: addUser_def Let_def)

lemma removeUser_gameState:
  "isActive (gameState (service (removeUser socketId w))) = isActive (gameState (service w))
   \<and> winner (gameState (service (removeUser socketId w))) = winner (gameState (service w))
   \<and> currentQuestion (gameState (service (removeUser socketId w)))
     = currentQuestion (gameState (service w))
   \<and> submissionLock (service (removeUser socketId w)) = submissionLock (service w)
   \<and> awaiting (removeUser socketId w) = awaiting w"
  by (simp add: removeUser_def Let_def split: option.splits)

subsection \<open>Invariants of executions\<close>

lemma step_stays_inactive:
  assumes "\<not> starts_round e" and "\<not> isActive (gameState (service w))"
  shows "\<not> isActive (gameState (service (step fmt e w)))"
proof (cases e)
  case (SubmitAnswer uid uname ans now)
  with assms(2) show ?thesis
    by (simp add: step_def submitAnswer_sync_inactive)
next
  case (LedgerSettles i outcome)
  with assms(2) submitAnswer_resume_gameState show ?thesis
    by (auto simp: step_def split: prod.splits dest!: arg_cong [where f = snd])
next
  case (AddUser socketId userId username)
  with assms(2) show ?thesis by (simp add: step_def addUser_gameState)
next
  case (RemoveUser socketId)
  with assms(2) show ?thesis by (simp add: step_def removeUser_gameState)
qed (use assms in \<open>simp_all add: step_def starts_round_def\<close>)

lemma run_stays_inactive:
  assumes "\<forall>e \<in> set es. \<not> starts_round e" and "\<not> isActive (gameState (service w))"
  shows "\<not> isActive (gameState (service (run fmt es w)))"
  using assms
  by (induction es arbitrary: w) (simp_all add: step_stays_inactive)

lemma wins_closes_round:
  assumes "wins e w"
  shows "isActive (gameState (service w)) \<and> \<not> isActive (gameState (service (step fmt e w)))"
proof (cases e)
  case (SubmitAnswer uid uname ans now)
  obtain st s' where sync: "submitAnswer_sync uid uname ans now (service w) = (st, s')"
    by (cases "submitAnswer_sync uid uname ans now (service w)")
  show ?thesis
  proof (cases st)
    case (Returns r)
    with sync assms SubmitAnswer submitAnswer_sync_Returns [of uid uname ans now "service w" r s']
    show ?thesis by (simp add: wins_def promised_def)
  next
    case (Awaits p)
    with sync SubmitAnswer submitAnswer_sync_Awaits [of uid uname ans now "service w" p s']
    show ?thesis by (simp add: step_def)
  qed
qed (use assms in \<open>simp_all add: wins_def\<close>)

lemma no_winner_when_inactive:
  assumes "\<forall>e \<in> set es. \<not> starts_round e" and "\<not> isActive (gameState (service w))"
  shows "winners fmt es w = 0"
  using assms
proof (induction es arbitrary: w)
  case Nil
  show ?case by simp
next
  case (Cons e es)
  from Cons.prems wins_closes_round [of e w] have "\<not> wins e w" by blast
  moreover from Cons.prems have "\<not> isActive (gameState (service (step fmt e w)))"
    by (simp add: step_stays_inactive)
  ultimately show ?case using Cons by simp
qed

lemma at_most_one_winner:
  assumes "\<forall>e \<in> set es. \<not> starts_round e"
  shows "winners fmt es w \<le> 1"
  using assms
proof (induction es arbitrary: w)
  case Nil
  show ?case by simp
next
  case (Cons e es)
  show ?case
  proof (cases "wins e w")
    case True
    then have "\<not> isActive (gameState (service (step fmt e w)))"
      using wins_closes_round by blast
    with Cons.prems have "winners fmt es (step fmt e w) = 0"
      by (simp add: no_winner_when_inactive)
    with True show ?thesis by simp
  next
    case False
    with Cons show ?thesis by simp
  qed
qed

lemma step_closed_when_won:
  assumes "closed_when_won w"
  shows "closed_when_won (step fmt e w)"
proof (cases e)
  case (SubmitAnswer uid uname ans now)
  obtain st s' where sync: "submitAnswer_sync uid uname ans now (service w) = (st, s')"
    by (cases "submitAnswer_sync uid uname ans now (service w)")
  show ?thesis
  proof (cases st)
    case (Returns r)
    with sync assms SubmitAnswer
      submitAnswer_sync_Returns [of uid uname ans now "service w" r s']
      submitAnswer_sync_lock [of uid uname ans now "service w"]
      submitAnswer_sync_question [of uid uname ans now "service w"]
    show ?thesis by (auto simp: step_def closed_when_won_def)
  next
    case (Awaits p)
    with sync SubmitAnswer assms
      submitAnswer_sync_Awaits [of uid uname ans now "service w" p s']
      submitAnswer_sync_question [of uid uname ans now "service w"]
    show ?thesis by (auto simp: step_def closed_when_won_def)
  qed
next
  case (LedgerSettles i outcome)
  show ?thesis
  proof (cases "i < length (awaiting w)")
    case True
    let ?w = "w\<lparr>awaiting := take i (awaiting w) @ drop (Suc i) (awaiting w)\<rparr>"
    obtain r w' where res: "submitAnswer_resume (awaiting w ! i) outcome ?w = (r, w')"
      by (cases "submitAnswer_resume (awaiting w ! i) outcome ?w")
    from res submitAnswer_resume_gameState [of "awaiting w ! i" outcome ?w]
    have "gameState (service w') = gameState (service w)" by simp
    moreover from res submitAnswer_resume_unlocked [of "awaiting w ! i" outcome ?w]
    have "\<not> submissionLock (service w')" by simp
    moreover from True assms have "currentQuestion (gameState (service w)) \<noteq> None"
      by (auto simp: closed_when_won_def)
    ultimately show ?thesis using assms LedgerSettles True res
      by (simp add: step_def closed_when_won_def)
  next
    case False
    with assms LedgerSettles show ?thesis by (simp add: step_def)
  qed
next
  case (StartNewQuestion uuid now rs)
  then show ?thesis by (simp add: step_def closed_when_won_def startNewQuestion_gameState)
next
  case (ForceNewQuestion uuid now rs)
  then show ?thesis
    by (simp add: step_def closed_when_won_def forceNewQuestion_def Let_def
          startNewQuestion_gameState)
next
  case (AddUser socketId userId username)
  with assms show ?thesis by (simp add: step_def closed_when_won_def addUser_gameState)
next
  case (RemoveUser socketId)
  with assms show ?thesis by (simp add: step_def closed_when_won_def removeUser_gameState)
next
  case SetQuestionChangeCallback
  with assms show ?thesis by (simp add: step_def closed_when_won_def)
next
  case SetWinnerAnnouncementCallback
  with assms show ?thesis by (simp add: step_def closed_when_won_def)
qed

lemma reachable_closed_when_won: "closed_when_won (run fmt es constructor)"
proof -
  have "closed_when_won w \<Longrightarrow> closed_when_won (run fmt es w)" for w
    by (induction es arbitrary: w) (simp_all add: step_closed_when_won)
  moreover have "closed_when_won constructor"
    by (simp add: closed_when_won_def constructor_def)
  ultimately show ?thesis .
qed

lemma settled_call_returns_promised:
  assumes "closed_when_won w" and "i < length (awaiting w)"
  shows "returned (step fmt (LedgerSettles i outcome) w)
           = returned w @ [Inr (promised (Awaits (awaiting w ! i)))]"
proof -
  from assms have q: "currentQuestion (gameState (service w)) \<noteq> None"
    by (auto simp: closed_when_won_def)
  let ?w = "w\<lparr>awaiting := take i (awaiting w) @ drop (Suc i) (awaiting w)\<rparr>"
  from q have "fst (submitAnswer_resume (awaiting w ! i) outcome ?w)
                 = Inr (promised (Awaits (awaiting w ! i)))"
    by (simp add: submitAnswer_resume_result)
  moreover have "returned (snd (submitAnswer_resume (awaiting w ! i) outcome ?w)) = returned w"
    by (simp add: submitAnswer_resume_def Let_def split: db_outcome.splits option.splits)
  ultimately show ?thesis using assms(2)
    by (auto simp: step_def split: prod.splits)
qed

subsection \<open>The claims about the session controller\<close>

text \<open>
  C1. A round is one lifetime of the game state between two runs of
  \<open>startNewQuestion\<close>, so an execution within a round has no event that starts a
  round. Among the calls of \<open>submitAnswer\<close> made in such an execution, whatever the
  state it starts in and however the calls, their continuations and the presence events
  interleave, at most one is told \<open>isWinner: true\<close>; once a call has won, the active
  flag stays off for the rest of the round; in every state an execution reaches from
  the constructor, a recorded winner means an inactive round; and the continuation of a
  suspended call returns exactly the result counted for it.
\<close>

theorem single_winner_per_round:
  "((\<forall>e \<in> set es. \<not> starts_round e) \<longrightarrow> winners fmt es w \<le> 1)
   \<and> (wins e w \<and> (\<forall>e \<in> set es. \<not> starts_round e)
        \<longrightarrow> \<not> isActive (gameState (service (run fmt es (step fmt e w)))))
   \<and> (winner (gameState (service (run fmt es' constructor))) \<noteq> None
        \<longrightarrow> \<not> isActive (gameState (service (run fmt es' constructor))))
   \<and> (i < length (awaiting (run fmt es' constructor))
        \<longrightarrow> returned (step fmt (LedgerSettles i outcome) (run fmt es' constructor))
            = returned (run fmt es' constructor)
              @ [Inr (promised (Awaits (awaiting (run fmt es' constructor) ! i)))])"
proof (intro conjI impI)
  assume "\<forall>e \<in> set es. \<not> starts_round e"
  then show "winners fmt es w \<le> 1" by (rule at_most_one_winner)
next
  assume "wins e w \<and> (\<forall>e \<in> set es. \<not> starts_round e)"
  then show "\<not> isActive (gameState (service (run fmt es (step fmt e w))))"
    using wins_closes_round [of e w fmt] run_stays_inactive by blast
next
  assume "winner (gameState (service (run fmt es' constructor))) \<noteq> None"
  then show "\<not> isActive (gameState (service (run fmt es' constructor)))"
    using reachable_closed_when_won [of fmt es'] by (simp add: closed_when_won_def)
next
  assume "i < length (awaiting (run fmt es' constructor))"
  then show "returned (step fmt (LedgerSettles i outcome) (run fmt es' constructor))
            = returned (run fmt es' constructor)
              @ [Inr (promised (Awaits (awaiting (run fmt es' constructor) ! i)))]"
    using reachable_closed_when_won [of fmt es'] by (rule settled_call_returns_promised [rotated])
qed

theorem single_winner_per_round_witness:
  "winners no_fmt round_play (run no_fmt round_opening constructor) = 1
   \<and> winner (gameState (service (run no_fmt (round_opening @ round_play) constructor)))
       = Some \<lparr>w_userId = ''u2'', w_username = ''bob'', w_submissionTime = 1500\<rparr>
   \<and> isActive (gameState (service (run no_fmt (round_opening @ round_play) constructor))) = False
   \<and> returned (step no_fmt (LedgerSettles 0 DbError)
                 (run no_fmt (round_opening @ round_play) constructor))
       = [Inr \<lparr>isCorrect = False, isWinner = False, submissionTime = 1400, timeTaken = 400\<rparr>,
          Inr \<lparr>isCorrect = False, isWinner = False, submissionTime = 1600, timeTaken = 0\<rparr>,
          Inr \<lparr>isCorrect = True, isWinner = True, submissionTime = 1500, timeTaken = 500\<rparr>]"
proof -
  let ?w = "run no_fmt round_opening constructor"
  let ?v = "run no_fmt (round_opening @ round_play) constructor"
  note inst = single_winner_per_round [where es = round_play and fmt = no_fmt and w = "?w"
      and es' = "round_opening @ round_play" and i = 0 and outcome = DbError]
  have "\<forall>e \<in> set round_play. \<not> starts_round e"
    by (simp add: round_play_def starts_round_def)
  with inst have "winners no_fmt round_play ?w \<le> 1" by blast
  moreover have "1 \<le> winners no_fmt round_play ?w" by code_simp
  ultimately have one: "winners no_fmt round_play ?w = 1" by simp
  have won: "winner (gameState (service ?v))
       = Some \<lparr>w_userId = ''u2'', w_username = ''bob'', w_submissionTime = 1500\<rparr>"
    by code_simp
  with inst have closed: "\<not> isActive (gameState (service ?v))" by simp
  have "0 < length (awaiting ?v)" by code_simp
  with inst have "returned (step no_fmt (LedgerSettles 0 DbError) ?v)
      = returned ?v @ [Inr (promised (Awaits (awaiting ?v ! 0)))]" by blast
  moreover have "returned ?v @ [Inr (promised (Awaits (awaiting ?v ! 0)))]
      = [Inr \<lparr>isCorrect = False, isWinner = False, submissionTime = 1400, timeTaken = 400\<rparr>,
         Inr \<lparr>isCorrect = False, isWinner = False, submissionTime = 1600, timeTaken = 0\<rparr>,
         Inr \<lparr>isCorrect = True, isWinner = True, submissionTime = 1500, timeTaken = 500\<rparr>]"
    by code_simp
  ultimately show ?thesis using one won closed by simp
qed

text \<open>
  C6. A call of \<open>submitAnswer\<close> made while no round is active (the active flag is off,
  or there is no current question, or no start time) returns
  \<open>{isCorrect: false, isWinner: false, timeTaken: 0}\<close> as a normal result, and leaves
  the whole state as it was.
\<close>

theorem no_active_round_result:
  assumes "\<not> isActive (gameState (service w)) \<or> currentQuestion (gameState (service w)) = None
           \<or> startTime (gameState (service w)) = None"
  shows "submitAnswer outcome uid uname ans now w =
           (Inr \<lparr>isCorrect = False, isWinner = False, submissionTime = now, timeTaken = 0\<rparr>, w)"
  using submitAnswer_sync_inactive [OF assms] by (simp add: submitAnswer_def)

theorem no_active_round_result_witness:
  "currentQuestion (gameState (service constructor)) = None
   \<and> submitAnswer DbOk ''u1'' ''ann'' (Fin 42) 7 constructor =
     (Inr \<lparr>isCorrect = False, isWinner = False, submissionTime = 7, timeTaken = 0\<rparr>, constructor)"
  using no_active_round_result [of constructor DbOk "''u1''" "''ann''" "Fin 42" 7]
  by (simp add: constructor_def)

text \<open>
  The code writes the result \<open>{isCorrect: true, isWinner: false}\<close> twice, for a
  correct answer that finds the lock held or a winner recorded; from a state whose round
  is still active it is what the call returns, without changing the state. But the
  winner is recorded, and the lock taken, in the same uninterrupted run that clears the
  active flag, and the flag is tested first: in every state an execution reaches from
  the constructor, a call that finds a winner or the lock gets the result of a call
  without an active round, and the state is not changed.
\<close>

lemma late_submission_result:
  "(winner (gameState (service (run fmt es constructor))) \<noteq> None
      \<or> submissionLock (service (run fmt es constructor))
     \<longrightarrow> submitAnswer outcome uid uname ans now (run fmt es constructor)
         = (Inr \<lparr>isCorrect = False, isWinner = False, submissionTime = now, timeTaken = 0\<rparr>,
            run fmt es constructor))
   \<and> (isActive (gameState (service w)) \<and> currentQuestion (gameState (service w)) = Some q
        \<and> startTime (gameState (service w)) = Some started \<and> answerIsCorrect ans (answer q)
        \<and> (submissionLock (service w) \<or> winner (gameState (service w)) \<noteq> None)
     \<longrightarrow> submitAnswer outcome uid uname ans now w
         = (Inr \<lparr>isCorrect = True, isWinner = False, submissionTime = now,
                 timeTaken = now - started\<rparr>, w))"
proof (intro conjI impI)
  assume "winner (gameState (service (run fmt es constructor))) \<noteq> None
          \<or> submissionLock (service (run fmt es constructor))"
  with reachable_closed_when_won [of fmt es]
  have "\<not> isActive (gameState (service (run fmt es constructor)))"
    by (auto simp: closed_when_won_def)
  then show "submitAnswer outcome uid uname ans now (run fmt es constructor)
         = (Inr \<lparr>isCorrect = False, isWinner = False, submissionTime = now, timeTaken = 0\<rparr>,
            run fmt es constructor)"
    by (simp add: submitAnswer_def submitAnswer_sync_inactive)
next
  assume "isActive (gameState (service w)) \<and> currentQuestion (gameState (service w)) = Some q
        \<and> startTime (gameState (service w)) = Some started \<and> answerIsCorrect ans (answer q)
        \<and> (submissionLock (service w) \<or> winner (gameState (service w)) \<noteq> None)"
  then show "submitAnswer outcome uid uname ans now w
         = (Inr \<lparr>isCorrect = True, isWinner = False, submissionTime = now,
                 timeTaken = now - started\<rparr>, w)"
    by (auto simp: submitAnswer_def submitAnswer_sync_def Let_def)
qed

text \<open>
  Conversely the synchronous part returns a correct, not winning result only from an
  active round with the lock held or a winner recorded, so no call made in a reachable
  state is ever told \<open>{isCorrect: true, isWinner: false}\<close>: both branches are dead.
\<close>

lemma late_result_only_when_active:
  assumes "submitAnswer_sync uid uname ans now s = (Returns r, s')" and "isCorrect r"
  shows "isActive (gameState s) \<and> (submissionLock s \<or> winner (gameState s) \<noteq> None)"
  using assms
  by (auto simp: submitAnswer_sync_def Let_def split: option.splits if_splits)

lemma reachable_correct_result_wins:
  assumes "isCorrect (promised (fst (submitAnswer_sync uid uname ans now
                                       (service (run fmt es constructor)))))"
  shows "isWinner (promised (fst (submitAnswer_sync uid uname ans now
                                    (service (run fmt es constructor)))))"
proof (cases "submitAnswer_sync uid uname ans now (service (run fmt es constructor))")
  case (Pair st s')
  show ?thesis
  proof (cases st)
    case (Returns r)
    with Pair assms have "isCorrect r" by (simp add: promised_def)
    with Pair Returns
    have "isActive (gameState (service (run fmt es constructor)))
          \<and> (submissionLock (service (run fmt es constructor))
              \<or> winner (gameState (service (run fmt es constructor))) \<noteq> None)"
      using late_result_only_when_active by blast
    with reachable_closed_when_won [of fmt es] show ?thesis
      by (auto simp: closed_when_won_def)
  next
    case (Awaits p)
    with Pair show ?thesis by (simp add: promised_def)
  qed
qed

text \<open>
  C2 fails on the code. In the example round bob has won with the answer 42. Ann's
  answer 42, submitted afterwards, is correct for the current question and arrives
  while the winner record is set; the call returns \<open>isCorrect: false\<close> with
  \<open>timeTaken: 0\<close>, where the claim, and the branch of the code written for this
  case, say \<open>isCorrect: true\<close>. The same happens while bob's ledger write is still
  pending and the lock is held. (The state is not changed and the result is a normal
  one, as the claim says.)
\<close>

theorem late_correct_submission_is_judged_incorrect:
  "winner (gameState (service (run no_fmt round_won constructor)))
      = Some \<lparr>w_userId = ''u2'', w_username = ''bob'', w_submissionTime = 1500\<rparr>
   \<and> map_option answer (currentQuestion (gameState (service (run no_fmt round_won constructor))))
      = Some (Fin 42)
   \<and> answerIsCorrect (Fin 42) (Fin 42)
   \<and> submitAnswer DbOk ''u1'' ''ann'' (Fin 42) 1600 (run no_fmt round_won constructor)
      = (Inr \<lparr>isCorrect = False, isWinner = False, submissionTime = 1600, timeTaken = 0\<rparr>,
         run no_fmt round_won constructor)
   \<and> submissionLock (service (run no_fmt
         (round_opening @ [SubmitAnswer ''u2'' ''bob'' (Fin 42) 1500]) constructor))
   \<and> fst (submitAnswer DbOk ''u1'' ''ann'' (Fin 42) 1600
         (run no_fmt (round_opening @ [SubmitAnswer ''u2'' ''bob'' (Fin 42) 1500]) constructor))
      = Inr \<lparr>isCorrect = False, isWinner = False, submissionTime = 1600, timeTaken = 0\<rparr>"
  by code_simp

text \<open>
  C7. A failure of the score-ledger write changes neither the result of the winning
  call nor the rest of the round-closing sequence: the continuation run after a failed
  write returns what it returns after a successful one and leaves the same state but
  for the ledger, which is untouched; the lock is released on every path of the
  continuation, the one that throws included, and a call that found the lock free
  leaves it free. For a winning submission whose write fails the result is
  \<open>{isCorrect: true, isWinner: true}\<close>, the round is closed, the winner is announced
  when the callback is set, and the next round is scheduled.
\<close>

theorem ledger_failure_is_swallowed:
  "fst (submitAnswer_resume p DbError w) = fst (submitAnswer_resume p DbOk w)
   \<and> snd (submitAnswer_resume p DbError w)
       = (snd (submitAnswer_resume p DbOk w))\<lparr>userModel := userModel w\<rparr>
   \<and> \<not> submissionLock (service (snd (submitAnswer_resume p outcome w)))
   \<and> (\<not> submissionLock (service w)
        \<longrightarrow> \<not> submissionLock (service (snd (submitAnswer outcome uid uname ans now w))))
   \<and> (isActive (gameState (service w)) \<and> currentQuestion (gameState (service w)) = Some q
        \<and> startTime (gameState (service w)) = Some started \<and> answerIsCorrect ans (answer q)
        \<and> \<not> submissionLock (service w) \<and> winner (gameState (service w)) = None
       \<longrightarrow> fst (submitAnswer DbError uid uname ans now w)
             = Inr \<lparr>isCorrect = True, isWinner = True, submissionTime = now,
                    timeTaken = now - started\<rparr>
           \<and> winner (gameState (service (snd (submitAnswer DbError uid uname ans now w))))
             = Some \<lparr>w_userId = uid, w_username = uname, w_submissionTime = now\<rparr>
           \<and> \<not> isActive (gameState (service (snd (submitAnswer DbError uid uname ans now w))))
           \<and> \<not> submissionLock (service (snd (submitAnswer DbError uid uname ans now w)))
           \<and> timers (snd (submitAnswer DbError uid uname ans now w)) = timers w @ [3000]
           \<and> winnerAnnounced (snd (submitAnswer DbError uid uname ans now w))
             = (if winnerAnnouncementCallback (service w)
                then winnerAnnounced w @ [(uid, uname, now - started, answer q)]
                else winnerAnnounced w)
           \<and> userModel (snd (submitAnswer DbError uid uname ans now w)) = userModel w)"
proof (intro conjI impI)
  show "fst (submitAnswer_resume p DbError w) = fst (submitAnswer_resume p DbOk w)"
    by (simp add: submitAnswer_resume_def Let_def split: option.splits)
  show "snd (submitAnswer_resume p DbError w)
       = (snd (submitAnswer_resume p DbOk w))\<lparr>userModel := userModel w\<rparr>"
    by (simp add: submitAnswer_resume_def Let_def split: option.splits)
  show "\<not> submissionLock (service (snd (submitAnswer_resume p outcome w)))"
    by (rule submitAnswer_resume_unlocked)
next
  assume "\<not> submissionLock (service w)"
  then show "\<not> submissionLock (service (snd (submitAnswer outcome uid uname ans now w)))"
    by (simp add: submitAnswer_def submitAnswer_sync_def submitAnswer_resume_def Let_def
          split: db_outcome.splits option.splits)
next
  assume a: "isActive (gameState (service w)) \<and> currentQuestion (gameState (service w)) = Some q
        \<and> startTime (gameState (service w)) = Some started \<and> answerIsCorrect ans (answer q)
        \<and> \<not> submissionLock (service w) \<and> winner (gameState (service w)) = None"
  then have run: "submitAnswer DbError uid uname ans now w =
      submitAnswer_resume
        \<lparr>p_userId = uid, p_username = uname, p_submissionTime = now, p_timeTaken = now - started,
         p_totalScore = totalScore (currentDifficulty (service w)) (now - started)\<rparr>
        DbError
        (w\<lparr>service := (service w)\<lparr>submissionLock := True,
              gameState := (gameState (service w))
                 \<lparr>winner := Some \<lparr>w_userId = uid, w_username = uname, w_submissionTime = now\<rparr>,
                  isActive := False\<rparr>\<rparr>\<rparr>)"
    by (simp add: submitAnswer_def submitAnswer_sync_def Let_def)
  from a show "fst (submitAnswer DbError uid uname ans now w)
             = Inr \<lparr>isCorrect = True, isWinner = True, submissionTime = now,
                    timeTaken = now - started\<rparr>"
    unfolding run by (simp add: submitAnswer_resume_def Let_def)
  from a show "winner (gameState (service (snd (submitAnswer DbError uid uname ans now w))))
             = Some \<lparr>w_userId = uid, w_username = uname, w_submissionTime = now\<rparr>"
    unfolding run by (simp add: submitAnswer_resume_gameState)
  from a show "\<not> isActive (gameState (service (snd (submitAnswer DbError uid uname ans now w))))"
    unfolding run by (simp add: submitAnswer_resume_gameState)
  show "\<not> submissionLock (service (snd (submitAnswer DbError uid uname ans now w)))"
    unfolding run by (rule submitAnswer_resume_unlocked)
  from a show "timers (snd (submitAnswer DbError uid uname ans now w)) = timers w @ [3000]"
    unfolding run by (simp add: submitAnswer_resume_def Let_def)
  from a show "winnerAnnounced (snd (submitAnswer DbError uid uname ans now w))
             = (if winnerAnnouncementCallback (service w)
                then winnerAnnounced w @ [(uid, uname, now - started, answer q)]
                else winnerAnnounced w)"
    unfolding run by (simp add: submitAnswer_resume_def Let_def)
  show "userModel (snd (submitAnswer DbError uid uname ans now w)) = userModel w"
    unfolding run by (simp add: submitAnswer_resume_def Let_def split: option.splits)
qed

theorem ledger_failure_is_swallowed_witness:
  "submitAnswer DbError ''u2'' ''bob'' (Fin 42) 1500 (run no_fmt round_opening constructor)
     = (Inr \<lparr>isCorrect = True, isWinner = True, submissionTime = 1500, timeTaken = 500\<rparr>,
        (snd (submitAnswer DbOk ''u2'' ''bob'' (Fin 42) 1500 (run no_fmt round_opening constructor)))
          \<lparr>userModel := []\<rparr>)
   \<and> timers (snd (submitAnswer DbError ''u2'' ''bob'' (Fin 42) 1500
                    (run no_fmt round_opening constructor))) = [1000, 500, 3000]
   \<and> winnerAnnounced (snd (submitAnswer DbError ''u2'' ''bob'' (Fin 42) 1500
                    (run no_fmt round_opening constructor))) = [(''u2'', ''bob'', 500, Fin 42)]
   \<and> submissionLock (service (snd (submitAnswer DbError ''u2'' ''bob'' (Fin 42) 1500
                    (run no_fmt round_opening constructor)))) = False
   \<and> userModel (snd (submitAnswer DbOk ''u2'' ''bob'' (Fin 42) 1500
                    (run no_fmt round_opening constructor))) = [(''bob'', 109, 1)]"
proof -
  let ?w = "run no_fmt round_opening constructor"
  let ?q = "\<lparr>problem = ''Calculate: 19 + 23'', answer = Fin 42, difficulty = Easy,
             qid = ''uuid-1'', createdAt = 1000\<rparr>"
  note inst = ledger_failure_is_swallowed [where w = "?w" and q = "?q" and started = 1000
      and uid = "''u2''" and uname = "''bob''" and ans = "Fin 42" and now = 1500]
  have "isActive (gameState (service ?w))" by code_simp
  moreover have "currentQuestion (gameState (service ?w)) = Some ?q" by code_simp
  moreover have "startTime (gameState (service ?w)) = Some 1000" by code_simp
  moreover have "answerIsCorrect (Fin 42) (answer ?q)" by code_simp
  moreover have "\<not> submissionLock (service ?w)" by code_simp
  moreover have "winner (gameState (service ?w)) = None" by code_simp
  ultimately have
    "fst (submitAnswer DbError ''u2'' ''bob'' (Fin 42) 1500 ?w)
       = Inr \<lparr>isCorrect = True, isWinner = True, submissionTime = 1500, timeTaken = 1500 - 1000\<rparr>
     \<and> \<not> submissionLock (service (snd (submitAnswer DbError ''u2'' ''bob'' (Fin 42) 1500 ?w)))
     \<and> timers (snd (submitAnswer DbError ''u2'' ''bob'' (Fin 42) 1500 ?w)) = timers ?w @ [3000]"
    using inst by blast
  moreover have "timers ?w = [1000, 500]" by code_simp
  moreover have "snd (submitAnswer DbError ''u2'' ''bob'' (Fin 42) 1500 ?w)
     = (snd (submitAnswer DbOk ''u2'' ''bob'' (Fin 42) 1500 ?w))\<lparr>userModel := []\<rparr>"
    by code_simp
  moreover have "winnerAnnounced (snd (submitAnswer DbError ''u2'' ''bob'' (Fin 42) 1500 ?w))
     = [(''u2'', ''bob'', 500, Fin 42)]"
    by code_simp
  moreover have "userModel (snd (submitAnswer DbOk ''u2'' ''bob'' (Fin 42) 1500 ?w))
     = [(''bob'', 109, 1)]"
    by code_simp
  ultimately show ?thesis by (simp add: prod_eq_iff)
qed

section \<open>Properties of the question generator\<close>

lemma generateArithmetic_difficulty:
  "generateArithmetic d rs = (Some q, rs') \<Longrightarrow> difficulty q = d"
  by (auto simp: generateArithmetic_def Let_def split: prod.splits option.splits)

lemma generateQuestionByType_difficulty:
  assumes "generateQuestionByType ty d rs = (Some q, rs')"
  shows "difficulty q = d"
proof -
  have "difficulty (fst (generateAlgebra d rs)) = d"
    by (simp add: generateAlgebra_def Let_def split: prod.splits option.splits)
  moreover have "difficulty (fst (generateFractions d rs)) = d"
    by (simp add: generateFractions_def Let_def split: prod.splits)
  moreover have "difficulty (fst (generatePercentages d rs)) = d"
    by (simp add: generatePercentages_def Let_def split: prod.splits option.splits)
  moreover have "difficulty (fst (generatePowers d rs)) = d"
    by (simp add: generatePowers_def Let_def split: prod.splits)
  moreover have "difficulty (fst (generateMixed d rs)) = d"
    by (simp add: generateMixed_def Let_def split: prod.splits option.splits)
  ultimately show ?thesis
    using assms generateArithmetic_difficulty [of d rs q rs']
    by (auto simp: generateQuestionByType_def map_prod_def split: if_splits prod.splits)
qed

lemma generateSimpleArithmetic_result:
  assumes "generateSimpleArithmetic d uuid now gen rs = (q, gen', rs')"
  shows "difficulty q = d \<and> generatedQuestions gen' = generatedQuestions gen"
  using assms
  by (auto simp: generateSimpleArithmetic_def Let_def split: prod.splits)

text \<open>
  What a call leaves in the dedupe set: either the key of the returned question was
  accepted and remembered, or (the fallback) the set is as it was.
\<close>

lemma generateQuestion_loop_result:
  assumes "generateQuestion_loop d fmt uuid now attempts gen rs = (q, gen', rs')"
  shows "difficulty q = d
         \<and> (gen' = remember (problem q @ ''-'' @ numberToString fmt (answer q)) gen
            \<or> generatedQuestions gen' = generatedQuestions gen)"
  using assms
proof (induction d fmt uuid now attempts gen rs rule: generateQuestion_loop.induct)
  case (1 d fmt uuid now attempts gen rs)
  show ?case
  proof (cases "attempts < 50")
    case False
    with "1.prems" have "generateSimpleArithmetic d uuid now gen rs = (q, gen', rs')"
      by (simp add: generateQuestion_loop.simps)
    then show ?thesis
      using generateSimpleArithmetic_result by blast
  next
    case True
    obtain questionType rs1 where ty: "getRandomQuestionType d rs = (questionType, rs1)"
      by (cases "getRandomQuestionType d rs")
    obtain body rs2 where gen: "generateQuestionByType questionType d rs1 = (body, rs2)"
      by (cases "generateQuestionByType questionType d rs1")
    show ?thesis
    proof (cases body)
      case None
      with True ty gen "1.prems"
      have "generateQuestion_loop d fmt uuid now (attempts + 1) gen rs2 = (q, gen', rs')"
        by (simp add: generateQuestion_loop.simps [of d fmt uuid now attempts])
      then show ?thesis
        by (rule "1.IH"(1) [OF True ty [symmetric] gen [symmetric] None])
    next
      case (Some b)
      show ?thesis
      proof (cases "questionKey fmt b \<notin> set (generatedQuestions gen)
                    \<or> 100 < length (generatedQuestions gen)")
        case accepted: True
        with True ty gen Some "1.prems"
        have "q = \<lparr>problem = problem b, answer = answer b, difficulty = difficulty b,
                   qid = uuid @ ''-'' @ show_nat (questionCounter (remember (questionKey fmt b) gen)),
                   createdAt = now\<rparr>"
          and "gen' = remember (questionKey fmt b) gen"
          by (auto simp: generateQuestion_loop.simps [of d fmt uuid now attempts] Let_def)
        moreover from gen Some have "difficulty b = d"
          using generateQuestionByType_difficulty by blast
        ultimately show ?thesis
          by (simp add: questionKey_def)
      next
        case rejected: False
        with True ty gen Some "1.prems"
        have "generateQuestion_loop d fmt uuid now (attempts + 1) gen rs2 = (q, gen', rs')"
          by (auto simp: generateQuestion_loop.simps [of d fmt uuid now attempts])
        then show ?thesis
          by (rule "1.IH"(2) [OF True ty [symmetric] gen [symmetric] Some rejected])
      qed
    qed
  qed
qed

text \<open>
  The first pass of the loop: a candidate that is new, or any candidate once the set
  holds more than 100 keys, is returned and its key remembered.
\<close>

lemma generateQuestion_accepts:
  assumes "getRandomQuestionType d rs = (ty, rs1)"
    and "generateQuestionByType ty d rs1 = (Some b, rs2)"
    and "questionKey fmt b \<notin> set (generatedQuestions gen) \<or> 100 < length (generatedQuestions gen)"
  shows "generateQuestion d fmt uuid now gen rs =
           (\<lparr>problem = problem b, answer = answer b, difficulty = difficulty b,
             qid = uuid @ ''-'' @ show_nat (questionCounter (remember (questionKey fmt b) gen)),
             createdAt = now\<rparr>,
            remember (questionKey fmt b) gen, rs2)"
  using assms
  by (simp add: generateQuestion_def generateQuestion_loop.simps [of d fmt uuid now 0] Let_def)

subsection \<open>The dedupe set\<close>

lemma remember_bounded:
  assumes "length (generatedQuestions gen) \<le> 150"
  shows "length (generatedQuestions (remember k gen)) \<le> 150"
  using assms by (auto simp: remember_def set_add_def Let_def)

lemma remember_trim:
  assumes "length (generatedQuestions gen) \<le> 150"
    and "length (generatedQuestions (remember k gen)) < length (generatedQuestions gen)"
  shows "generatedQuestions (remember k gen) = drop 51 (generatedQuestions gen @ [k])
         \<and> length (generatedQuestions (remember k gen)) = 100
         \<and> k \<notin> set (generatedQuestions gen)"
proof (cases "k \<in> set (generatedQuestions gen)")
  case True
  with assms show ?thesis by (simp add: remember_def set_add_def Let_def)
next
  case False
  with assms have "length (generatedQuestions gen) = 150"
    by (auto simp: remember_def set_add_def Let_def split: if_splits)
  with False show ?thesis by (simp add: remember_def set_add_def Let_def)
qed

lemma remember_cases:
  assumes "length (generatedQuestions gen) \<le> 150"
  shows "generatedQuestions (remember k gen) =
           (if k \<in> set (generatedQuestions gen) then generatedQuestions gen
            else if length (generatedQuestions gen) < 150 then generatedQuestions gen @ [k]
            else drop 51 (generatedQuestions gen) @ [k])"
  using assms by (auto simp: remember_def set_add_def Let_def)

lemma remember_distinct:
  assumes "distinct (generatedQuestions gen)"
  shows "distinct (generatedQuestions (remember k gen))"
  using assms by (auto simp: remember_def set_add_def Let_def)

lemma generateQuestion_bounded:
  assumes "length (generatedQuestions gen) \<le> 150 \<and> distinct (generatedQuestions gen)"
  shows "length (generatedQuestions (fst (snd (generateQuestion d fmt uuid now gen rs)))) \<le> 150
         \<and> distinct (generatedQuestions (fst (snd (generateQuestion d fmt uuid now gen rs))))"
proof -
  obtain q gen' rs' where res: "generateQuestion d fmt uuid now gen rs = (q, gen', rs')"
    by (cases "generateQuestion d fmt uuid now gen rs")
  then have "gen' = remember (problem q @ ''-'' @ numberToString fmt (answer q)) gen
             \<or> generatedQuestions gen' = generatedQuestions gen"
    using generateQuestion_loop_result [of d fmt uuid now 0 gen rs q gen' rs']
    by (simp add: generateQuestion_def)
  with assms remember_bounded remember_distinct
  have "length (generatedQuestions gen') \<le> 150 \<and> distinct (generatedQuestions gen')"
    by auto
  with res show ?thesis by simp
qed

lemma generateQuestions_bounded:
  assumes "length (generatedQuestions gen) \<le> 150 \<and> distinct (generatedQuestions gen)"
  shows "length (generatedQuestions (generateQuestions fmt calls gen)) \<le> 150
         \<and> distinct (generatedQuestions (generateQuestions fmt calls gen))"
  using assms
proof (induction calls arbitrary: gen)
  case Nil
  then show ?case by simp
next
  case (Cons c calls)
  obtain d uuid now rs where c: "c = (d, uuid, now, rs)"
    by (cases c)
  from Cons.prems show ?case
    unfolding c generateQuestions.simps
    by (intro Cons.IH generateQuestion_bounded)
qed

text \<open>
  C9. A call of \<open>generateQuestion\<close> on a dedupe set of at most 150 keys leaves at most
  150 keys. It leaves the set as it was (the key of the question was there already, or
  the fallback was taken), or appends the new key of the question it returns, or, when
  the set holds 150 keys and the key is new, cuts it to exactly 100 keys: the 51 oldest
  keys are dropped and the 99 newest of the old keys are kept in their order, followed
  by the new key. "Most recently inserted" is the insertion order of the set, in which
  adding a key that is present moves nothing. The cut is stated from the input as well:
  the loop body at 150 keys and a new key, and a call at 150 keys whose first candidate
  has a new key. From the empty set of the class, after any sequence of calls, the set
  has at most 150 keys, all different.
\<close>

theorem dedupe_set_bounded:
  "(length (generatedQuestions gen) \<le> 150 \<and> generateQuestion d fmt uuid now gen rs = (q, gen', rs')
     \<longrightarrow> length (generatedQuestions gen') \<le> 150
         \<and> (length (generatedQuestions gen') < length (generatedQuestions gen)
              \<longrightarrow> generatedQuestions gen'
                    = drop 51 (generatedQuestions gen
                               @ [problem q @ ''-'' @ numberToString fmt (answer q)])
                  \<and> length (generatedQuestions gen') = 100)
         \<and> (generatedQuestions gen' = generatedQuestions gen
            \<or> (problem q @ ''-'' @ numberToString fmt (answer q)) \<notin> set (generatedQuestions gen)
              \<and> length (generatedQuestions gen) < 150
              \<and> generatedQuestions gen'
                  = generatedQuestions gen @ [problem q @ ''-'' @ numberToString fmt (answer q)]
            \<or> (problem q @ ''-'' @ numberToString fmt (answer q)) \<notin> set (generatedQuestions gen)
              \<and> length (generatedQuestions gen) = 150
              \<and> generatedQuestions gen'
                  = drop 51 (generatedQuestions gen)
                    @ [problem q @ ''-'' @ numberToString fmt (answer q)]
              \<and> length (generatedQuestions gen') = 100))
   \<and> (length (generatedQuestions gen) = 150 \<and> k \<notin> set (generatedQuestions gen)
     \<longrightarrow> generatedQuestions (remember k gen) = drop 51 (generatedQuestions gen) @ [k]
         \<and> length (generatedQuestions (remember k gen)) = 100)
   \<and> (length (generatedQuestions gen) = 150 \<and> getRandomQuestionType d rs = (ty, rs1)
        \<and> generateQuestionByType ty d rs1 = (Some b, rs2)
        \<and> questionKey fmt b \<notin> set (generatedQuestions gen)
     \<longrightarrow> generatedQuestions (fst (snd (generateQuestion d fmt uuid now gen rs)))
           = drop 51 (generatedQuestions gen) @ [questionKey fmt b]
         \<and> length (generatedQuestions (fst (snd (generateQuestion d fmt uuid now gen rs)))) = 100
         \<and> problem (fst (generateQuestion d fmt uuid now gen rs)) = problem b
         \<and> answer (fst (generateQuestion d fmt uuid now gen rs)) = answer b)
   \<and> length (generatedQuestions
        (generateQuestions fmt calls \<lparr>generatedQuestions = [], questionCounter = 0\<rparr>)) \<le> 150
   \<and> distinct (generatedQuestions
        (generateQuestions fmt calls \<lparr>generatedQuestions = [], questionCounter = 0\<rparr>))"
proof (intro conjI impI)
  let ?key = "problem q @ ''-'' @ numberToString fmt (answer q)"
  assume a: "length (generatedQuestions gen) \<le> 150
             \<and> generateQuestion d fmt uuid now gen rs = (q, gen', rs')"
  then have cases: "gen' = remember ?key gen \<or> generatedQuestions gen' = generatedQuestions gen"
    using generateQuestion_loop_result [of d fmt uuid now 0 gen rs q gen' rs']
    by (simp add: generateQuestion_def)
  with a remember_bounded show "length (generatedQuestions gen') \<le> 150"
    by auto
  from a cases remember_cases [of gen ?key]
  show "generatedQuestions gen' = generatedQuestions gen
            \<or> ?key \<notin> set (generatedQuestions gen)
              \<and> length (generatedQuestions gen) < 150
              \<and> generatedQuestions gen' = generatedQuestions gen @ [?key]
            \<or> ?key \<notin> set (generatedQuestions gen)
              \<and> length (generatedQuestions gen) = 150
              \<and> generatedQuestions gen' = drop 51 (generatedQuestions gen) @ [?key]
              \<and> length (generatedQuestions gen') = 100"
    by (auto split: if_splits)
  assume "length (generatedQuestions gen') < length (generatedQuestions gen)"
  with a cases remember_trim [of gen ?key]
  show "generatedQuestions gen' = drop 51 (generatedQuestions gen @ [?key])"
    and "length (generatedQuestions gen') = 100"
    by auto
next
  assume "length (generatedQuestions gen) = 150 \<and> k \<notin> set (generatedQuestions gen)"
  then show "generatedQuestions (remember k gen) = drop 51 (generatedQuestions gen) @ [k]"
    and "length (generatedQuestions (remember k gen)) = 100"
    by (simp_all add: remember_cases)
next
  assume a: "length (generatedQuestions gen) = 150 \<and> getRandomQuestionType d rs = (ty, rs1)
        \<and> generateQuestionByType ty d rs1 = (Some b, rs2)
        \<and> questionKey fmt b \<notin> set (generatedQuestions gen)"
  then have res: "generateQuestion d fmt uuid now gen rs =
           (\<lparr>problem = problem b, answer = answer b, difficulty = difficulty b,
             qid = uuid @ ''-'' @ show_nat (questionCounter (remember (questionKey fmt b) gen)),
             createdAt = now\<rparr>,
            remember (questionKey fmt b) gen, rs2)"
    by (intro generateQuestion_accepts) auto
  from a show "generatedQuestions (fst (snd (generateQuestion d fmt uuid now gen rs)))
           = drop 51 (generatedQuestions gen) @ [questionKey fmt b]"
    and "length (generatedQuestions (fst (snd (generateQuestion d fmt uuid now gen rs)))) = 100"
    unfolding res by (simp_all add: remember_cases)
  show "problem (fst (generateQuestion d fmt uuid now gen rs)) = problem b"
    and "answer (fst (generateQuestion d fmt uuid now gen rs)) = answer b"
    unfolding res by simp_all
next
  have "length (generatedQuestions \<lparr>generatedQuestions = [], questionCounter = 0\<rparr>) \<le> 150
        \<and> distinct (generatedQuestions \<lparr>generatedQuestions = [], questionCounter = 0\<rparr>)"
    by simp
  then show "length (generatedQuestions
        (generateQuestions fmt calls \<lparr>generatedQuestions = [], questionCounter = 0\<rparr>)) \<le> 150"
    and "distinct (generatedQuestions
        (generateQuestions fmt calls \<lparr>generatedQuestions = [], questionCounter = 0\<rparr>))"
    using generateQuestions_bounded by blast+
qed

theorem dedupe_set_bounded_witness:
  "length (generatedQuestions full_generator) = 150
   \<and> fst (generateQuestion Easy no_fmt ''uuid'' 7 full_generator [3 / 4, 0, 1 / 2, 1 / 2, 1 / 2])
       = \<lparr>problem = ''What is x when 1(x + 11) = 22?'', answer = Fin 11, difficulty = Easy,
          qid = ''uuid-151'', createdAt = 7\<rparr>
   \<and> generatedQuestions (fst (snd (generateQuestion Easy no_fmt ''uuid'' 7 full_generator
                                     [3 / 4, 0, 1 / 2, 1 / 2, 1 / 2])))
       = drop 51 (generatedQuestions full_generator @ [''What is x when 1(x + 11) = 22?-11''])
   \<and> generatedQuestions (fst (snd (generateQuestion Easy no_fmt ''uuid'' 7 full_generator
                                     [3 / 4, 0, 1 / 2, 1 / 2, 1 / 2])))
       = drop 51 (generatedQuestions full_generator) @ [''What is x when 1(x + 11) = 22?-11'']
   \<and> hd (generatedQuestions (fst (snd (generateQuestion Easy no_fmt ''uuid'' 7 full_generator
                                     [3 / 4, 0, 1 / 2, 1 / 2, 1 / 2])))) = ''key51''
   \<and> length (generatedQuestions (fst (snd (generateQuestion Easy no_fmt ''uuid'' 7 full_generator
                                     [3 / 4, 0, 1 / 2, 1 / 2, 1 / 2])))) = 100
   \<and> length (generatedQuestions
        (generateQuestions no_fmt (map fresh_call [0..<3])
           \<lparr>generatedQuestions = [], questionCounter = 0\<rparr>)) = 3"
proof -
  let ?rs = "[3 / 4, 0, 1 / 2, 1 / 2, 1 / 2] :: rnd"
  let ?b = "\<lparr>problem = ''What is x when 1(x + 11) = 22?'', answer = Fin 11, difficulty = Easy\<rparr>"
  let ?q = "\<lparr>problem = ''What is x when 1(x + 11) = 22?'', answer = Fin 11, difficulty = Easy,
             qid = ''uuid-151'', createdAt = 7\<rparr>"
  let ?g = "fst (snd (generateQuestion Easy no_fmt ''uuid'' 7 full_generator ?rs))"
  have q: "fst (generateQuestion Easy no_fmt ''uuid'' 7 full_generator ?rs) = ?q"
    by code_simp
  then have res: "generateQuestion Easy no_fmt ''uuid'' 7 full_generator ?rs
      = (?q, ?g, snd (snd (generateQuestion Easy no_fmt ''uuid'' 7 full_generator ?rs)))"
    by (simp add: prod_eq_iff)
  note inst = dedupe_set_bounded [where gen = full_generator and d = Easy and fmt = no_fmt
      and uuid = "''uuid''" and now = 7 and rs = "?rs" and q = "?q" and gen' = "?g"
      and rs' = "snd (snd (generateQuestion Easy no_fmt ''uuid'' 7 full_generator ?rs))"
      and ty = "''algebra''" and ?rs1.0 = "[0, 1 / 2, 1 / 2, 1 / 2]" and b = "?b" and ?rs2.0 = "[]"
      and calls = "map fresh_call [0..<3]"]
  have full: "length (generatedQuestions full_generator) = 150"
    by code_simp
  have ty: "getRandomQuestionType Easy ?rs = (''algebra'', [0, 1 / 2, 1 / 2, 1 / 2])"
    by code_simp
  have b: "generateQuestionByType ''algebra'' Easy [0, 1 / 2, 1 / 2, 1 / 2] = (Some ?b, [])"
    by code_simp
  have key: "questionKey no_fmt ?b = ''What is x when 1(x + 11) = 22?-11''"
    by code_simp
  have new: "''What is x when 1(x + 11) = 22?-11'' \<notin> set (generatedQuestions full_generator)"
    by code_simp
  from inst full ty b key new
  have cut: "generatedQuestions ?g
          = drop 51 (generatedQuestions full_generator) @ [''What is x when 1(x + 11) = 22?-11'']"
    and len: "length (generatedQuestions ?g) = 100"
    by simp_all
  from len full have "length (generatedQuestions ?g) < length (generatedQuestions full_generator)"
    by simp
  with inst res full
  have "generatedQuestions ?g
          = drop 51 (generatedQuestions full_generator
                     @ [problem ?q @ ''-'' @ numberToString no_fmt (answer ?q)])"
    by simp
  moreover have "problem ?q @ ''-'' @ numberToString no_fmt (answer ?q)
                 = ''What is x when 1(x + 11) = 22?-11''"
    by code_simp
  moreover have "hd (drop 51 (generatedQuestions full_generator)
                     @ [''What is x when 1(x + 11) = 22?-11'']) = ''key51''"
    by code_simp
  moreover have "length (generatedQuestions
        (generateQuestions no_fmt (map fresh_call [0..<3])
           \<lparr>generatedQuestions = [], questionCounter = 0\<rparr>)) = 3"
    by code_simp
  ultimately show ?thesis using q full cut len by simp
qed

subsection \<open>Answers that the generator should not return\<close>

text \<open>
  C3 fails on the code. With the difficulty \<open>hard\<close>, the draws below select the
  archetype "powers", the base 20 and the exponent 5; the result 3200000 is above 10000,
  the number drawn for the square root, 52, is not a perfect square, and the function
  falls through to the power question. \<open>generateQuestion\<close> does not validate what the
  archetype returns, and returns an answer that \<open>isValidAnswer\<close> rejects.
\<close>

theorem generateQuestion_returns_invalid_answer:
  "generateQuestion Hard no_fmt ''uuid'' 0 \<lparr>generatedQuestions = [], questionCounter = 0\<rparr>
       [3 / 4, 31 / 32, 3 / 4, 1 / 2]
     = (\<lparr>problem = ''Calculate: 20^5'', answer = Fin 3200000, difficulty = Hard,
         qid = ''uuid-1'', createdAt = 0\<rparr>,
        \<lparr>generatedQuestions = [''Calculate: 20^5-3200000''], questionCounter = 1\<rparr>, [])
   \<and> isValidAnswer (Fin 3200000) = False"
  by code_simp

text \<open>
  The fallback is not exempt: when the 50 attempts all repeat a question of the dedupe
  set, \<open>generateSimpleArithmetic\<close> can return \<open>1000 * 1000\<close>, whose magnitude is not
  below 1000000.
\<close>

lemma fallback_returns_invalid_answer:
  "generateQuestion Hard no_fmt ''uuid'' 0
       \<lparr>generatedQuestions = [''If 1x + 1 = 2, find x-1''], questionCounter = 1\<rparr>
       (concat (replicate 50 [1 / 4, 0, 0, 0, 0]) @ [1023 / 1024, 1023 / 1024, 3 / 4])
     = (\<lparr>problem = ''Calculate: 1000 * 1000'', answer = Fin 1000000, difficulty = Hard,
         qid = ''uuid-2'', createdAt = 0\<rparr>,
        \<lparr>generatedQuestions = [''If 1x + 1 = 2, find x-1''], questionCounter = 2\<rparr>, [])
   \<and> isValidAnswer (Fin 1000000) = False"
  by code_simp

text \<open>
  C4 fails on the code. The inverse percentage question prints the rounded whole, so
  its text and its stored answer disagree: for base 50 and percentage 95 the text is
  \<open>50 is what percent of 53?\<close> and the stored answer is 95, while 50 / 53 * 100,
  rounded to two places, is 94.34; a player who submits that value is told it is wrong.
\<close>

theorem generateQuestion_answer_disagrees_with_text:
  "fst (generateQuestion Hard no_fmt ''uuid'' 0 \<lparr>generatedQuestions = [], questionCounter = 0\<rparr>
          [1 / 2, 0, 127 / 128, 1 / 2])
     = \<lparr>problem = ''50 is what percent of 53?'', answer = Fin 95, difficulty = Hard,
        qid = ''uuid-1'', createdAt = 0\<rparr>
   \<and> round_scaled 100 (js_mul (js_div (Fin 50) (Fin 53)) (Fin 100)) = js_literal (9434 / 100)
   \<and> answerIsCorrect (js_literal (9434 / 100)) (Fin 95) = False"
  by code_simp

text \<open>
  The arithmetic archetype has the same defect: when its 20 attempts all produce a value
  of magnitude 1000000 or more, it returns the last expression with the initial answer 0.
\<close>

lemma arithmetic_answer_disagrees_with_text:
  "fst (generateQuestion Medium no_fmt ''uuid'' 0 \<lparr>generatedQuestions = [], questionCounter = 0\<rparr>
          (0 # replicate 101 (127 / 128)))
     = \<lparr>problem = ''Calculate: 199 * 199 * 199'', answer = Fin 0, difficulty = Medium,
        qid = ''uuid-1'', createdAt = 0\<rparr>
   \<and> evaluate (199, [(Some Times, 199), (Some Times, 199)]) = Some (Fin 7880599)
   \<and> chain_text (199, [(Some Times, 199), (Some Times, 199)]) = ''199 * 199 * 199''"
  by code_simp

section \<open>Difficulty, tolerance and participants\<close>

lemma adjustDifficulty_steps:
  "currentDifficulty (adjustDifficulty s) =
     (if length (connectedUsers s) \<le> 2 then Easy
      else if length (connectedUsers s) \<le> 5 then Medium else Hard)"
  by (simp add: adjustDifficulty_def Let_def)

lemma startNewQuestion_difficulty:
  "currentDifficulty (service (startNewQuestion fmt uuid now rs w))
     = currentDifficulty (adjustDifficulty (service w))
   \<and> map_option difficulty (currentQuestion (gameState (service (startNewQuestion fmt uuid now rs w))))
     = Some (currentDifficulty (adjustDifficulty (service w)))"
proof -
  obtain q gen' rs' where res:
    "generateQuestion (currentDifficulty (adjustDifficulty (service w))) fmt uuid now
       (questionGenerator w) rs = (q, gen', rs')"
    by (cases "generateQuestion (currentDifficulty (adjustDifficulty (service w))) fmt uuid now
                 (questionGenerator w) rs")
  then have "difficulty q = currentDifficulty (adjustDifficulty (service w))"
    using generateQuestion_loop_result
      [of "currentDifficulty (adjustDifficulty (service w))" fmt uuid now 0 "questionGenerator w"
          rs q gen' rs']
    by (simp add: generateQuestion_def)
  with res show ?thesis
    by (simp add: startNewQuestion_def Let_def adjustDifficulty_def)
qed

text \<open>
  The size of the \<open>Map\<close> of connected users is the length of the association list:
  in every reachable state its keys are distinct.
\<close>

lemma step_connectedUsers_distinct:
  assumes "distinct (map fst (connectedUsers (service w)))"
  shows "distinct (map fst (connectedUsers (service (step fmt e w))))"
proof (cases e)
  case (SubmitAnswer uid uname ans now)
  have "connectedUsers (snd (submitAnswer_sync uid uname ans now (service w)))
          = connectedUsers (service w)"
    by (simp add: submitAnswer_sync_def Let_def split: option.splits)
  with assms SubmitAnswer show ?thesis
    by (auto simp: step_def split: prod.splits submitStep.splits)
next
  case (LedgerSettles i outcome)
  have "connectedUsers (service (snd (submitAnswer_resume p outcome v))) = connectedUsers (service v)"
    for p v
    by (simp add: submitAnswer_resume_def Let_def split: db_outcome.splits option.splits)
  from this [of "awaiting w ! i" "w\<lparr>awaiting := take i (awaiting w) @ drop (Suc i) (awaiting w)\<rparr>"]
    assms LedgerSettles
  show ?thesis
    by (auto simp: step_def split: prod.splits)
next
  case (StartNewQuestion uuid now rs)
  with assms show ?thesis
    by (simp add: step_def startNewQuestion_def adjustDifficulty_def Let_def split: prod.splits)
next
  case (ForceNewQuestion uuid now rs)
  with assms show ?thesis
    by (simp add: step_def forceNewQuestion_def startNewQuestion_def adjustDifficulty_def Let_def
          split: prod.splits)
next
  case (AddUser socketId userId username)
  with assms show ?thesis
    by (simp add: step_def addUser_def Let_def distinct_update)
next
  case (RemoveUser socketId)
  with assms show ?thesis
    by (simp add: step_def removeUser_def Let_def distinct_delete split: option.splits)
qed (use assms in \<open>simp_all add: step_def\<close>)

lemma reachable_connectedUsers_distinct:
  "distinct (map fst (connectedUsers (service (run fmt es constructor))))"
proof -
  have "distinct (map fst (connectedUsers (service w)))
        \<Longrightarrow> distinct (map fst (connectedUsers (service (run fmt es w))))" for w
    by (induction es arbitrary: w) (simp_all add: step_connectedUsers_distinct)
  then show ?thesis by (simp add: constructor_def)
qed

text \<open>
  C8. The difficulty that \<open>startNewQuestion\<close> selects, and gives to the question of
  the new round, is a step function of the number of connected users: at most 2
  (0 included) gives easy, 3 to 5 gives medium, 6 or more gives hard; it is monotonic
  in that number.
\<close>

theorem difficulty_step_function:
  "(length (connectedUsers (service w)) \<le> 2
      \<longrightarrow> currentDifficulty (service (startNewQuestion fmt uuid now rs w)) = Easy)
   \<and> (3 \<le> length (connectedUsers (service w)) \<and> length (connectedUsers (service w)) \<le> 5
      \<longrightarrow> currentDifficulty (service (startNewQuestion fmt uuid now rs w)) = Medium)
   \<and> (6 \<le> length (connectedUsers (service w))
      \<longrightarrow> currentDifficulty (service (startNewQuestion fmt uuid now rs w)) = Hard)
   \<and> (length (connectedUsers (service w)) \<le> length (connectedUsers (service w'))
      \<longrightarrow> difficulty_rank (currentDifficulty (service (startNewQuestion fmt uuid now rs w)))
          \<le> difficulty_rank (currentDifficulty (service (startNewQuestion fmt uuid' now' rs' w'))))
   \<and> map_option difficulty
        (currentQuestion (gameState (service (startNewQuestion fmt uuid now rs w))))
      = Some (currentDifficulty (service (startNewQuestion fmt uuid now rs w)))"
  by (simp add: startNewQuestion_difficulty adjustDifficulty_steps difficulty_rank_def)

theorem difficulty_step_function_witness:
  "currentDifficulty (service (startNewQuestion no_fmt ''uuid'' 0 [] (crowd 0))) = Easy
   \<and> currentDifficulty (service (startNewQuestion no_fmt ''uuid'' 0 [] (crowd 2))) = Easy
   \<and> currentDifficulty (service (startNewQuestion no_fmt ''uuid'' 0 [] (crowd 3))) = Medium
   \<and> currentDifficulty (service (startNewQuestion no_fmt ''uuid'' 0 [] (crowd 5))) = Medium
   \<and> currentDifficulty (service (startNewQuestion no_fmt ''uuid'' 0 [] (crowd 6))) = Hard
   \<and> difficulty_rank (currentDifficulty (service (startNewQuestion no_fmt ''uuid'' 0 [] (crowd 2))))
      < difficulty_rank (currentDifficulty (service (startNewQuestion no_fmt ''uuid'' 0 [] (crowd 6))))"
proof -
  note inst = difficulty_step_function [where fmt = no_fmt and uuid = "''uuid''" and now = 0
      and rs = "[]" and uuid' = "''uuid''" and now' = 0 and rs' = "[]"]
  have n0: "length (connectedUsers (service (crowd 0))) = 0" by code_simp
  have n2: "length (connectedUsers (service (crowd 2))) = 2" by code_simp
  have n3: "length (connectedUsers (service (crowd 3))) = 3" by code_simp
  have n5: "length (connectedUsers (service (crowd 5))) = 5" by code_simp
  have n6: "length (connectedUsers (service (crowd 6))) = 6" by code_simp
  from inst [where w = "crowd 0"] n0
  have "currentDifficulty (service (startNewQuestion no_fmt ''uuid'' 0 [] (crowd 0))) = Easy"
    by simp
  moreover from inst [where w = "crowd 2"] n2
  have "currentDifficulty (service (startNewQuestion no_fmt ''uuid'' 0 [] (crowd 2))) = Easy"
    by simp
  moreover from inst [where w = "crowd 3"] n3
  have "currentDifficulty (service (startNewQuestion no_fmt ''uuid'' 0 [] (crowd 3))) = Medium"
    by simp
  moreover from inst [where w = "crowd 5"] n5
  have "currentDifficulty (service (startNewQuestion no_fmt ''uuid'' 0 [] (crowd 5))) = Medium"
    by simp
  moreover from inst [where w = "crowd 6"] n6
  have "currentDifficulty (service (startNewQuestion no_fmt ''uuid'' 0 [] (crowd 6))) = Hard"
    by simp
  ultimately show ?thesis by (simp add: difficulty_rank_def)
qed

text \<open>
  C10. The participant set of the round plays no part in \<open>submitAnswer\<close>: replacing
  it by any other set changes neither the result nor the rest of the resulting state,
  the winner record included. In particular a user whose identifier is not in the
  participant set wins an active round with the first correct answer.
\<close>

lemma submitAnswer_sync_participants:
  "submitAnswer_sync uid uname ans now (s\<lparr>gameState := (gameState s)\<lparr>participants := P\<rparr>\<rparr>) =
     (fst (submitAnswer_sync uid uname ans now s),
      (snd (submitAnswer_sync uid uname ans now s))
        \<lparr>gameState := (gameState (snd (submitAnswer_sync uid uname ans now s)))\<lparr>participants := P\<rparr>\<rparr>)"
  by (simp add: submitAnswer_sync_def Let_def split: option.splits)

lemma submitAnswer_resume_participants:
  "submitAnswer_resume p outcome
      (w\<lparr>service := (service w)\<lparr>gameState := (gameState (service w))\<lparr>participants := P\<rparr>\<rparr>\<rparr>) =
     (fst (submitAnswer_resume p outcome w),
      (snd (submitAnswer_resume p outcome w))
        \<lparr>service := (service (snd (submitAnswer_resume p outcome w)))
           \<lparr>gameState := (gameState (service (snd (submitAnswer_resume p outcome w))))
               \<lparr>participants := P\<rparr>\<rparr>\<rparr>)"
  by (simp add: submitAnswer_resume_def Let_def split: db_outcome.splits option.splits)

lemma submitAnswer_participants:
  "submitAnswer outcome uid uname ans now
      (w\<lparr>service := (service w)\<lparr>gameState := (gameState (service w))\<lparr>participants := P\<rparr>\<rparr>\<rparr>) =
     (fst (submitAnswer outcome uid uname ans now w),
      (snd (submitAnswer outcome uid uname ans now w))
        \<lparr>service := (service (snd (submitAnswer outcome uid uname ans now w)))
           \<lparr>gameState := (gameState (service (snd (submitAnswer outcome uid uname ans now w))))
               \<lparr>participants := P\<rparr>\<rparr>\<rparr>)"
proof (cases "submitAnswer_sync uid uname ans now (service w)")
  case (Pair st s')
  show ?thesis
  proof (cases st)
    case (Returns r)
    with Pair show ?thesis
      by (simp add: submitAnswer_def submitAnswer_sync_participants)
  next
    case (Awaits p)
    with Pair submitAnswer_resume_participants
      [where p = p and outcome = outcome and w = "w\<lparr>service := s'\<rparr>" and P = P]
    show ?thesis
      by (simp add: submitAnswer_def submitAnswer_sync_participants)
  qed
qed

theorem participants_are_not_consulted:
  "submitAnswer outcome uid uname ans now
      (w\<lparr>service := (service w)\<lparr>gameState := (gameState (service w))\<lparr>participants := P\<rparr>\<rparr>\<rparr>) =
     (fst (submitAnswer outcome uid uname ans now w),
      (snd (submitAnswer outcome uid uname ans now w))
        \<lparr>service := (service (snd (submitAnswer outcome uid uname ans now w)))
           \<lparr>gameState := (gameState (service (snd (submitAnswer outcome uid uname ans now w))))
               \<lparr>participants := P\<rparr>\<rparr>\<rparr>)
   \<and> winner (gameState (service (snd (submitAnswer outcome uid uname ans now
         (w\<lparr>service := (service w)\<lparr>gameState := (gameState (service w))\<lparr>participants := P\<rparr>\<rparr>\<rparr>)))))
     = winner (gameState (service (snd (submitAnswer outcome uid uname ans now w))))
   \<and> (isActive (gameState (service w)) \<and> currentQuestion (gameState (service w)) = Some q
        \<and> startTime (gameState (service w)) = Some started \<and> answerIsCorrect ans (answer q)
        \<and> \<not> submissionLock (service w) \<and> winner (gameState (service w)) = None
        \<and> uid \<notin> participants (gameState (service w))
       \<longrightarrow> fst (submitAnswer outcome uid uname ans now w)
             = Inr \<lparr>isCorrect = True, isWinner = True, submissionTime = now,
                    timeTaken = now - started\<rparr>
           \<and> winner (gameState (service (snd (submitAnswer outcome uid uname ans now w))))
             = Some \<lparr>w_userId = uid, w_username = uname, w_submissionTime = now\<rparr>
           \<and> participants (gameState (service (snd (submitAnswer outcome uid uname ans now w))))
             = participants (gameState (service w)))"
proof (intro conjI impI)
  show "submitAnswer outcome uid uname ans now
      (w\<lparr>service := (service w)\<lparr>gameState := (gameState (service w))\<lparr>participants := P\<rparr>\<rparr>\<rparr>) =
     (fst (submitAnswer outcome uid uname ans now w),
      (snd (submitAnswer outcome uid uname ans now w))
        \<lparr>service := (service (snd (submitAnswer outcome uid uname ans now w)))
           \<lparr>gameState := (gameState (service (snd (submitAnswer outcome uid uname ans now w))))
               \<lparr>participants := P\<rparr>\<rparr>\<rparr>)"
    by (rule submitAnswer_participants)
  then show "winner (gameState (service (snd (submitAnswer outcome uid uname ans now
         (w\<lparr>service := (service w)\<lparr>gameState := (gameState (service w))\<lparr>participants := P\<rparr>\<rparr>\<rparr>)))))
     = winner (gameState (service (snd (submitAnswer outcome uid uname ans now w))))"
    by simp
next
  assume a: "isActive (gameState (service w)) \<and> currentQuestion (gameState (service w)) = Some q
        \<and> startTime (gameState (service w)) = Some started \<and> answerIsCorrect ans (answer q)
        \<and> \<not> submissionLock (service w) \<and> winner (gameState (service w)) = None
        \<and> uid \<notin> participants (gameState (service w))"
  then show "fst (submitAnswer outcome uid uname ans now w)
             = Inr \<lparr>isCorrect = True, isWinner = True, submissionTime = now,
                    timeTaken = now - started\<rparr>"
    by (simp add: submitAnswer_def submitAnswer_sync_def submitAnswer_resume_def Let_def
          split: db_outcome.splits)
  from a show "winner (gameState (service (snd (submitAnswer outcome uid uname ans now w))))
             = Some \<lparr>w_userId = uid, w_username = uname, w_submissionTime = now\<rparr>"
    by (simp add: submitAnswer_def submitAnswer_sync_def submitAnswer_resume_gameState Let_def)
  from a show "participants (gameState (service (snd (submitAnswer outcome uid uname ans now w))))
             = participants (gameState (service w))"
    by (simp add: submitAnswer_def submitAnswer_sync_def submitAnswer_resume_gameState Let_def)
qed

theorem participants_are_not_consulted_witness:
  "participants (gameState (service (run no_fmt round_opening constructor))) = {''s1''}
   \<and> fst (submitAnswer DbOk ''u9'' ''zed'' (Fin 42) 1500 (run no_fmt round_opening constructor))
      = Inr \<lparr>isCorrect = True, isWinner = True, submissionTime = 1500, timeTaken = 500\<rparr>
   \<and> winner (gameState (service (snd (submitAnswer DbOk ''u9'' ''zed'' (Fin 42) 1500
         (run no_fmt round_opening constructor)))))
      = Some \<lparr>w_userId = ''u9'', w_username = ''zed'', w_submissionTime = 1500\<rparr>
   \<and> fst (submitAnswer DbOk ''u9'' ''zed'' (Fin 42) 1500
         ((run no_fmt round_opening constructor)
            \<lparr>service := (service (run no_fmt round_opening constructor))
               \<lparr>gameState := (gameState (service (run no_fmt round_opening constructor)))
                  \<lparr>participants := {''u9''}\<rparr>\<rparr>\<rparr>))
      = Inr \<lparr>isCorrect = True, isWinner = True, submissionTime = 1500, timeTaken = 500\<rparr>"
proof -
  let ?w = "run no_fmt round_opening constructor"
  let ?q = "\<lparr>problem = ''Calculate: 19 + 23'', answer = Fin 42, difficulty = Easy,
             qid = ''uuid-1'', createdAt = 1000\<rparr>"
  note inst = participants_are_not_consulted [where w = "?w" and q = "?q" and started = 1000
      and uid = "''u9''" and uname = "''zed''" and ans = "Fin 42" and now = 1500
      and outcome = DbOk and P = "{''u9''}"]
  have parts: "participants (gameState (service ?w)) = {''s1''}" by code_simp
  have "isActive (gameState (service ?w))" by code_simp
  moreover have "currentQuestion (gameState (service ?w)) = Some ?q" by code_simp
  moreover have "startTime (gameState (service ?w)) = Some 1000" by code_simp
  moreover have "answerIsCorrect (Fin 42) (answer ?q)" by code_simp
  moreover have "\<not> submissionLock (service ?w)" by code_simp
  moreover have "winner (gameState (service ?w)) = None" by code_simp
  moreover from parts have "''u9'' \<notin> participants (gameState (service ?w))" by simp
  ultimately have won:
    "fst (submitAnswer DbOk ''u9'' ''zed'' (Fin 42) 1500 ?w)
       = Inr \<lparr>isCorrect = True, isWinner = True, submissionTime = 1500, timeTaken = 1500 - 1000\<rparr>
     \<and> winner (gameState (service (snd (submitAnswer DbOk ''u9'' ''zed'' (Fin 42) 1500 ?w))))
       = Some \<lparr>w_userId = ''u9'', w_username = ''zed'', w_submissionTime = 1500\<rparr>"
    using inst by blast
  from inst have "fst (submitAnswer DbOk ''u9'' ''zed'' (Fin 42) 1500
         (?w\<lparr>service := (service ?w)\<lparr>gameState := (gameState (service ?w))
                  \<lparr>participants := {''u9''}\<rparr>\<rparr>\<rparr>))
      = fst (submitAnswer DbOk ''u9'' ''zed'' (Fin 42) 1500 ?w)"
    by simp
  with won parts show ?thesis by simp
qed

section \<open>The tolerance of the answer check\<close>

text \<open>
  Facts about the rounding to binary64: the binary logarithm that fixes the exponent, and
  a lower bound for the rounded value of a number that is at least one hundredth.
\<close>

lemma ilog2_bounds:
  "1 \<le> n \<Longrightarrow> 0 \<le> ilog2 n \<and> 2 ^ nat (ilog2 n) \<le> n \<and> n < 2 * 2 ^ nat (ilog2 n)"
proof (induction n rule: ilog2.induct)
  case (1 n)
  show ?case
  proof (cases "n < 2")
    case True
    with "1.prems" have "n = 1" by simp
    then show ?thesis by (simp add: ilog2.simps)
  next
    case False
    then have "1 \<le> n div 2" by simp
    with "1.IH" False
    have ih: "0 \<le> ilog2 (n div 2)" "2 ^ nat (ilog2 (n div 2)) \<le> n div 2"
      "n div 2 < 2 * 2 ^ nat (ilog2 (n div 2))"
      by simp_all
    from False have eq: "ilog2 n = 1 + ilog2 (n div 2)"
      by (simp add: ilog2.simps [of n])
    with ih(1) have nat_eq: "nat (ilog2 n) = Suc (nat (ilog2 (n div 2)))"
      by simp
    define p :: int where "p = 2 ^ nat (ilog2 (n div 2))"
    from ih(2,3) have "p \<le> n div 2" "n div 2 < 2 * p"
      by (simp_all add: p_def)
    then have "2 * p \<le> n" "n < 2 * (2 * p)"
      by presburger+
    with eq ih(1) show ?thesis
      unfolding nat_eq by (simp add: p_def)
  qed
qed

lemma pow2_pos: "0 < pow2 k"
  by (simp add: pow2_def)

lemma pow2_powi: "pow2 k = 2 powi k"
  by (simp add: pow2_def power_int_def power_divide)

lemma floor_log2_lower:
  assumes "0 < q"
  shows "pow2 (floor_log2 q) \<le> q"
proof (cases "1 \<le> q")
  case True
  then have "1 \<le> \<lfloor>q\<rfloor>" by simp
  from ilog2_bounds [OF this]
  have "0 \<le> ilog2 \<lfloor>q\<rfloor>" "2 ^ nat (ilog2 \<lfloor>q\<rfloor>) \<le> \<lfloor>q\<rfloor>" by simp_all
  then have "(of_int (2 ^ nat (ilog2 \<lfloor>q\<rfloor>)) :: rat) \<le> of_int \<lfloor>q\<rfloor>"
    by (simp only: of_int_le_iff)
  also have "\<dots> \<le> q" by simp
  finally show ?thesis using True \<open>0 \<le> ilog2 \<lfloor>q\<rfloor>\<close>
    by (simp add: floor_log2_def pow2_def)
next
  case False
  with assms have "1 < 1 / q" by simp
  then have N: "2 \<le> \<lceil>1 / q\<rceil>" by linarith
  define m where "m = \<lceil>1 / q\<rceil> - 1"
  from N have "1 \<le> m" by (simp add: m_def)
  from ilog2_bounds [OF this]
  have b: "0 \<le> ilog2 m" "m < 2 * 2 ^ nat (ilog2 m)" by simp_all
  have c: "ceil_log2 \<lceil>1 / q\<rceil> = 1 + ilog2 m"
    using N by (simp add: ceil_log2_def m_def)
  from b(2) have "\<lceil>1 / q\<rceil> \<le> 2 * 2 ^ nat (ilog2 m)"
    by (simp add: m_def)
  then have "1 / q \<le> of_int (2 * 2 ^ nat (ilog2 m))"
    by (simp only: ceiling_le_iff)
  then have "1 / of_int (2 * 2 ^ nat (ilog2 m)) \<le> q"
    using assms by (simp add: field_simps)
  moreover have "pow2 (floor_log2 q) = 1 / of_int (2 * 2 ^ nat (ilog2 m))"
    using False b(1) c by (simp add: floor_log2_def pow2_def nat_add_distrib)
  ultimately show ?thesis by simp
qed

lemma floor_log2_hundredth:
  assumes "1 / 100 \<le> q"
  shows "- 7 \<le> floor_log2 q"
proof (cases "1 \<le> q")
  case True
  then have "1 \<le> \<lfloor>q\<rfloor>" by simp
  from ilog2_bounds [OF this] True show ?thesis
    by (simp add: floor_log2_def)
next
  case False
  from assms have q: "0 < q" by simp
  with False have "1 < 1 / q" by simp
  then have N: "2 \<le> \<lceil>1 / q\<rceil>" by linarith
  from assms q have "1 / q \<le> 100" by (simp add: field_simps)
  then have N': "\<lceil>1 / q\<rceil> \<le> 100" by (simp add: ceiling_le_iff)
  define m where "m = \<lceil>1 / q\<rceil> - 1"
  from N N' have m: "1 \<le> m" "m \<le> 99" by (simp_all add: m_def)
  from ilog2_bounds [OF m(1)]
  have b: "0 \<le> ilog2 m" "2 ^ nat (ilog2 m) \<le> m" by simp_all
  with m(2) have "(2::int) ^ nat (ilog2 m) < 2 ^ 7" by simp
  then have "nat (ilog2 m) < 7"
    using power_less_imp_less_exp [of "2::int" "nat (ilog2 m)" 7] by simp
  with b(1) have "ilog2 m \<le> 6" by simp
  with False N show ?thesis
    by (simp add: floor_log2_def ceil_log2_def m_def)
qed

lemma round_half_even_ge:
  assumes "of_int M - 1 / 2 < y"
  shows "M \<le> round_half_even y"
proof -
  from assms have "of_int (M - 1) \<le> y" by simp
  then have f: "M - 1 \<le> \<lfloor>y\<rfloor>" by (simp only: le_floor_iff)
  show ?thesis
  proof (cases "\<lfloor>y\<rfloor> = M - 1")
    case True
    with assms have "1 / 2 < y - of_int \<lfloor>y\<rfloor>" by simp
    with True show ?thesis by (simp add: round_half_even_def)
  next
    case False
    with f have "M \<le> \<lfloor>y\<rfloor>" by simp
    then show ?thesis by (simp add: round_half_even_def)
  qed
qed


lemma pow2_shift: "pow2 k = 2 ^ 52 * pow2 (k - 52)"
proof -
  have "(2::rat) powi (52 + (k - 52)) = 2 powi 52 * 2 powi (k - 52)"
    by (rule power_int_add) simp
  then show ?thesis by (simp add: pow2_powi)
qed

lemma pow2_mono: "j \<le> k \<Longrightarrow> pow2 j \<le> pow2 k"
  by (simp add: pow2_powi power_int_increasing)

lemma round_at_hundredth:
  assumes "1 / 100 \<le> a"
  shows "5764607523034235 / 576460752303423488 \<le> round_at a (max (floor_log2 a - 52) (- 1074))"
proof -
  from assms have pos: "0 < a" by simp
  have k: "- 7 \<le> floor_log2 a" using assms by (rule floor_log2_hundredth)
  then have e: "max (floor_log2 a - 52) (- 1074) = floor_log2 a - 52" by simp
  show ?thesis
  proof (cases "floor_log2 a = - 7")
    case True
    have p: "pow2 (- 59) = 1 / 576460752303423488" by (simp add: pow2_def)
    from assms have "of_int 5764607523034235 - 1 / 2 < a / pow2 (- 59)"
      unfolding p by simp
    then have "5764607523034235 \<le> round_half_even (a / pow2 (- 59))"
      by (rule round_half_even_ge)
    then have "(of_int 5764607523034235 :: rat) \<le> of_int (round_half_even (a / pow2 (- 59)))"
      by (simp only: of_int_le_iff)
    then have "of_int 5764607523034235 * pow2 (- 59)
               \<le> of_int (round_half_even (a / pow2 (- 59))) * pow2 (- 59)"
      using pow2_pos [of "- 59"] by (simp only: mult_le_cancel_right_pos)
    with True show ?thesis
      unfolding e round_at_def by (simp add: p)
  next
    case False
    with k have k6: "- 6 \<le> floor_log2 a" by simp
    let ?e = "floor_log2 a - 52"
    have "pow2 (floor_log2 a) \<le> a" using pos by (rule floor_log2_lower)
    then have "2 ^ 52 * pow2 ?e \<le> a" by (simp only: pow2_shift [symmetric])
    then have "2 ^ 52 \<le> a / pow2 ?e"
      using pow2_pos [of ?e] by (simp only: pos_le_divide_eq)
    moreover have "(of_int (2 ^ 52) :: rat) = 2 ^ 52" by simp
    ultimately have "of_int (2 ^ 52) - 1 / 2 < a / pow2 ?e" by linarith
    then have "2 ^ 52 \<le> round_half_even (a / pow2 ?e)"
      by (rule round_half_even_ge)
    then have "(of_int (2 ^ 52) :: rat) \<le> of_int (round_half_even (a / pow2 ?e))"
      by (simp only: of_int_le_iff)
    then have "of_int (2 ^ 52) * pow2 ?e \<le> of_int (round_half_even (a / pow2 ?e)) * pow2 ?e"
      using pow2_pos [of ?e] by (simp only: mult_le_cancel_right_pos)
    moreover have "of_int (2 ^ 52) * pow2 ?e = pow2 (floor_log2 a)"
      using pow2_shift [of "floor_log2 a"] by simp
    moreover have "pow2 (- 6) \<le> pow2 (floor_log2 a)" using k6 by (rule pow2_mono)
    moreover have "pow2 (- 6) = 1 / 64" by (simp add: pow2_def)
    ultimately show ?thesis
      unfolding e round_at_def by simp
  qed
qed

lemma literal_hundredth: "js_literal (1 / 100) = Fin (5764607523034235 / 576460752303423488)"
  by code_simp

lemma answerIsCorrect_fl:
  "answerIsCorrect (Fin a) (Fin v)
     = js_lt (js_abs (fl (a - v))) (Fin (5764607523034235 / 576460752303423488))"
  by (simp add: answerIsCorrect_def js_sub_def js_neg_def literal_hundredth)

lemma far_answer_rejected:
  assumes "1 / 100 \<le> \<bar>x\<bar>"
  shows "\<not> js_lt (js_abs (fl x)) (Fin (5764607523034235 / 576460752303423488))"
proof (cases "0 < x")
  case True
  define r where "r = round_at x (max (floor_log2 x - 52) (- 1074))"
  from True assms have "5764607523034235 / 576460752303423488 \<le> r"
    unfolding r_def by (intro round_at_hundredth) simp
  moreover from True have "round53 x = r"
    by (simp add: round53_def r_def)
  ultimately show ?thesis
    by (simp add: fl_def overflow_def js_abs_def)
next
  case False
  with assms have neg: "x < 0" by auto
  define r where "r = round_at (- x) (max (floor_log2 (- x) - 52) (- 1074))"
  from neg assms have "5764607523034235 / 576460752303423488 \<le> r"
    unfolding r_def by (intro round_at_hundredth) simp
  moreover from neg have "round53 x = - r"
    by (simp add: round53_def r_def)
  ultimately show ?thesis
    by (simp add: fl_def overflow_def js_abs_def)
qed

lemma floor_log2_below_one:
  assumes "0 < q" and "q < 1"
  shows "floor_log2 q \<le> 0"
proof -
  from assms have "1 < 1 / q" by simp
  then have "2 \<le> \<lceil>1 / q\<rceil>" by linarith
  then have "1 \<le> \<lceil>1 / q\<rceil> - 1" by simp
  from ilog2_bounds [OF this] have "0 \<le> ilog2 (\<lceil>1 / q\<rceil> - 1)" by simp
  with assms show ?thesis
    by (simp add: floor_log2_def ceil_log2_def)
qed

lemma near_exact_answer_accepted:
  assumes "round53 x = x" and "\<bar>x\<bar> < 1 / 100"
  shows "js_lt (js_abs (fl x)) (Fin (5764607523034235 / 576460752303423488))"
proof -
  consider "x = 0" | "0 < x" | "x < 0" by linarith
  then show ?thesis
  proof cases
    case 1
    then show ?thesis by (simp add: fl_def round53_def overflow_def js_abs_def)
  next
    case 2
    with assms(2) have "floor_log2 x \<le> 0" by (intro floor_log2_below_one) simp_all
    with 2 assms show ?thesis
      by (simp add: fl_def overflow_def js_abs_def)
  next
    case 3
    with assms(2) have "floor_log2 (- x) \<le> 0" by (intro floor_log2_below_one) simp_all
    with 3 assms show ?thesis
      by (simp add: fl_def overflow_def js_abs_def)
  qed
qed

lemma submitAnswer_isCorrect:
  assumes "isActive (gameState (service w))"
    and "currentQuestion (gameState (service w)) = Some q"
    and "startTime (gameState (service w)) = Some started"
  shows "\<exists>r. fst (submitAnswer outcome uid uname ans now w) = Inr r
             \<and> isCorrect r = answerIsCorrect ans (answer q)"
  using assms
  by (auto simp: submitAnswer_def submitAnswer_sync_def submitAnswer_resume_def Let_def
        split: db_outcome.splits)

text \<open>
  C5, as amended. In an active round with true answer \<open>v\<close> a submitted answer \<open>a\<close> is
  judged correct exactly when the binary64 difference \<open>a - v\<close> is smaller in magnitude
  than the binary64 value of 0.01. An answer judged correct has \<open>|a - v| < 0.01\<close> for
  the values of \<open>a\<close> and \<open>v\<close>, and when their difference is a binary64 value the
  two conditions are the same. For \<open>v = 42\<close> the submission 41.995 is accepted, and
  so is the submission 42.01: the number the service receives for it is the binary64
  value nearest to 42.01, which is 42.00999999999999801..., less than 0.01 above 42.
  The submission 42.02 is rejected.
\<close>

theorem tolerance_check:
  "(isActive (gameState (service w)) \<and> currentQuestion (gameState (service w)) = Some q
      \<and> startTime (gameState (service w)) = Some started
     \<longrightarrow> (\<exists>r. fst (submitAnswer outcome uid uname ans now w) = Inr r
              \<and> isCorrect r = answerIsCorrect ans (answer q)))
   \<and> answerIsCorrect (Fin a) (Fin v)
      = js_lt (js_abs (fl (a - v))) (Fin (5764607523034235 / 576460752303423488))
   \<and> (answerIsCorrect (Fin a) (Fin v) \<longrightarrow> \<bar>a - v\<bar> < 1 / 100)
   \<and> (round53 (a - v) = a - v \<and> \<bar>a - v\<bar> < 1 / 100 \<longrightarrow> answerIsCorrect (Fin a) (Fin v))
   \<and> answerIsCorrect (js_literal (41995 / 1000)) (js_literal 42)
   \<and> js_literal (4201 / 100) = Fin (5912381885807329 / 140737488355328)
   \<and> answerIsCorrect (js_literal (4201 / 100)) (js_literal 42)
   \<and> answerIsCorrect (js_literal (4202 / 100)) (js_literal 42) = False"
proof (intro conjI impI)
  assume "isActive (gameState (service w)) \<and> currentQuestion (gameState (service w)) = Some q
      \<and> startTime (gameState (service w)) = Some started"
  then show "\<exists>r. fst (submitAnswer outcome uid uname ans now w) = Inr r
              \<and> isCorrect r = answerIsCorrect ans (answer q)"
    using submitAnswer_isCorrect by blast
next
  show "answerIsCorrect (Fin a) (Fin v)
      = js_lt (js_abs (fl (a - v))) (Fin (5764607523034235 / 576460752303423488))"
    by (rule answerIsCorrect_fl)
next
  assume "answerIsCorrect (Fin a) (Fin v)"
  then have "js_lt (js_abs (fl (a - v))) (Fin (5764607523034235 / 576460752303423488))"
    by (simp only: answerIsCorrect_fl)
  with far_answer_rejected [of "a - v"] have "\<not> 1 / 100 \<le> \<bar>a - v\<bar>"
    by blast
  then show "\<bar>a - v\<bar> < 1 / 100"
    by (simp only: not_le)
next
  assume "round53 (a - v) = a - v \<and> \<bar>a - v\<bar> < 1 / 100"
  then have "js_lt (js_abs (fl (a - v))) (Fin (5764607523034235 / 576460752303423488))"
    using near_exact_answer_accepted [of "a - v"] by blast
  then show "answerIsCorrect (Fin a) (Fin v)"
    by (simp only: answerIsCorrect_fl)
next
  show "answerIsCorrect (js_literal (41995 / 1000)) (js_literal 42)"
    by code_simp
  show "js_literal (4201 / 100) = Fin (5912381885807329 / 140737488355328)"
    by code_simp
  show "answerIsCorrect (js_literal (4201 / 100)) (js_literal 42)"
    by code_simp
  show "answerIsCorrect (js_literal (4202 / 100)) (js_literal 42) = False"
    by code_simp
qed

theorem tolerance_check_witness:
  "fst (submitAnswer DbOk ''u2'' ''bob'' (js_literal (4201 / 100)) 1500
          (run no_fmt round_opening constructor))
     = Inr \<lparr>isCorrect = True, isWinner = True, submissionTime = 1500, timeTaken = 500\<rparr>
   \<and> answerIsCorrect (Fin (5912381885807329 / 140737488355328)) (Fin 42)
   \<and> \<bar>5912381885807329 / 140737488355328 - 42\<bar> < (1 / 100 :: rat)
   \<and> round53 (5912381885807329 / 140737488355328 - 42) = 5912381885807329 / 140737488355328 - 42"
proof -
  let ?w = "run no_fmt round_opening constructor"
  let ?q = "\<lparr>problem = ''Calculate: 19 + 23'', answer = Fin 42, difficulty = Easy,
             qid = ''uuid-1'', createdAt = 1000\<rparr>"
  note inst = tolerance_check [where w = "?w" and q = "?q" and started = 1000 and outcome = DbOk
      and uid = "''u2''" and uname = "''bob''" and ans = "js_literal (4201 / 100)" and now = 1500
      and a = "5912381885807329 / 140737488355328" and v = 42]
  have "isActive (gameState (service ?w))" by code_simp
  moreover have "currentQuestion (gameState (service ?w)) = Some ?q" by code_simp
  moreover have "startTime (gameState (service ?w)) = Some 1000" by code_simp
  ultimately obtain r where
    r: "fst (submitAnswer DbOk ''u2'' ''bob'' (js_literal (4201 / 100)) 1500 ?w) = Inr r"
       "isCorrect r = answerIsCorrect (js_literal (4201 / 100)) (answer ?q)"
    using inst by blast
  have "fst (submitAnswer DbOk ''u2'' ''bob'' (js_literal (4201 / 100)) 1500 ?w)
     = Inr \<lparr>isCorrect = True, isWinner = True, submissionTime = 1500, timeTaken = 500\<rparr>"
    by code_simp
  moreover have exact: "round53 (5912381885807329 / 140737488355328 - 42)
      = 5912381885807329 / 140737488355328 - 42"
    by code_simp
  moreover have near: "\<bar>5912381885807329 / 140737488355328 - 42\<bar> < (1 / 100 :: rat)"
    by simp
  moreover from inst exact near
  have "answerIsCorrect (Fin (5912381885807329 / 140737488355328)) (Fin 42)"
    by blast
  ultimately show ?thesis by simp
qed

text \<open>
  C5 as the specification states it fails: the submission 42.01 differs from 42 by
  exactly 0.01, which is not strictly less than 0.01, and it is judged correct; in the
  example round it wins.
\<close>

theorem boundary_submission_counterexample:
  "answerIsCorrect (js_literal (4201 / 100)) (js_literal 42)
   \<and> \<bar>4201 / 100 - 42\<bar> = (1 / 100 :: rat)
   \<and> map_option answer (currentQuestion (gameState (service (run no_fmt round_opening constructor))))
      = Some (Fin 42)
   \<and> fst (submitAnswer DbOk ''u2'' ''bob'' (js_literal (4201 / 100)) 1500
            (run no_fmt round_opening constructor))
      = Inr \<lparr>isCorrect = True, isWinner = True, submissionTime = 1500, timeTaken = 500\<rparr>"
proof -
  have "\<bar>4201 / 100 - 42\<bar> = (1 / 100 :: rat)" by simp
  moreover have "answerIsCorrect (js_literal (4201 / 100)) (js_literal 42)
   \<and> map_option answer (currentQuestion (gameState (service (run no_fmt round_opening constructor))))
      = Some (Fin 42)
   \<and> fst (submitAnswer DbOk ''u2'' ''bob'' (js_literal (4201 / 100)) 1500
            (run no_fmt round_opening constructor))
      = Inr \<lparr>isCorrect = True, isWinner = True, submissionTime = 1500, timeTaken = 500\<rparr>"
    by code_simp
  ultimately show ?thesis by simp
qed

end
